theory Spec2Isabelle
  imports Main "HOL-Library.AList" "HOL-Library.Sublist"
begin

unbundle bit_operations_syntax

section \<open>Errors\<close>

text \<open>
  What a call can raise: \<open>new Error(message)\<close> thrown by the source itself, the
  \<open>RangeError\<close> of \<open>toISOString\<close> on an invalid date, the \<open>SyntaxError\<close> of
  \<open>JSON.parse\<close>, the \<open>TypeError\<close> of a property read on \<open>null\<close> and of a value that
  cannot be turned into a string, and the rejection of a call to the broker, the network,
  the identity provider or the client library.
\<close>

datatype error = Error string | RangeError | SyntaxError | TypeError | Rejected string

section \<open>JavaScript values\<close>

text \<open>
  The values that reach \<open>convertToPlainObject\<close>. Numbers are the integer-valued ones
  (a JavaScript number holds them exactly up to \<open>2^53\<close> in magnitude); a \<open>Date\<close> carries
  its time value in milliseconds since the Unix epoch; a \<open>Buffer\<close> carries its bytes. An
  object carries its own enumerable properties in enumeration order, and has the prototype
  its kind gives it (\<open>Object.prototype\<close> for a record); an own property may be named
  \<open>__proto__\<close>, as \<open>JSON.parse\<close> makes one. Objects come in three kinds, after the tests
  the source makes on them:
  \<^item> \<open>JObj\<close>: a record with neither a \<open>forEach\<close> method under a constructor whose name
    contains \<open>Map\<close>, nor a \<open>toJSON\<close> method;
  \<^item> \<open>JMapLike\<close>: an object with such a \<open>forEach\<close>; the second list holds the entries
    \<open>forEach\<close> visits, each key already passed through \<open>String\<close>;
  \<^item> \<open>JSerializable\<close>: an object that is not map-like and has a \<open>toJSON\<close> method; the
    second component is what the method returns.
\<close>

datatype jsval =
    JUndefined
  | JNull
  | JBool bool
  | JNum int
  | JStr string
  | JDate int
  | JBuffer "nat list"
  | JArr "jsval list"
  | JObj "(string \<times> jsval) list"
  | JMapLike "(string \<times> jsval) list" "(string \<times> jsval) list"
  | JSerializable "(string \<times> jsval) list" jsval

text \<open>Decimal digits of a natural number, as string interpolation prints them.\<close>

fun show_nat :: "nat \<Rightarrow> string" where
  "show_nat n =
     (if n < 10 then [''0123456789'' ! n]
      else show_nat (n div 10) @ [''0123456789'' ! (n mod 10)])"

declare show_nat.simps [simp del]

definition pad_nat :: "nat \<Rightarrow> nat \<Rightarrow> string" where
  "pad_nat w n = replicate (w - length (show_nat n)) (CHR ''0'') @ show_nat n"

subsection \<open>\<open>Date.prototype.toISOString\<close>\<close>

text \<open>
  The library function the source calls on every timestamp: the proleptic Gregorian date
  of a day number, then \<open>YYYY-MM-DDTHH:mm:ss.sssZ\<close>, with a sign and six digits for a year
  outside \<open>0..9999\<close>. A time value is valid up to \<open>8.64e15\<close> in magnitude; a \<open>Date\<close>
  built from any other number is an invalid date, on which the library function raises
  \<open>RangeError\<close>. \<open>JDate t\<close> with \<open>t\<close> beyond that magnitude stands for an invalid date.
\<close>

definition civil_from_days :: "int \<Rightarrow> int \<times> int \<times> int" where
  "civil_from_days days =
     (let z = days + 719468;
          era = z div 146097;
          doe = z - era * 146097;
          yoe = (doe - doe div 1460 + doe div 36524 - doe div 146096) div 365;
          doy = doe - (365 * yoe + yoe div 4 - yoe div 100);
          mp = (5 * doy + 2) div 153;
          d = doy - (153 * mp + 2) div 5 + 1;
          m = (if mp < 10 then mp + 3 else mp - 9);
          y = yoe + era * 400 + (if m \<le> 2 then 1 else 0)
      in (y, m, d))"

definition toISOString :: "int \<Rightarrow> string" where
  "toISOString t =
     (let days = t div 86400000;
          ms = t mod 86400000;
          (y, m, d) = civil_from_days days;
          year = (if 0 \<le> y \<and> y \<le> 9999 then pad_nat 4 (nat y)
                  else (if y < 0 then ''-'' else ''+'') @ pad_nat 6 (nat \<bar>y\<bar>))
      in year @ ''-'' @ pad_nat 2 (nat m) @ ''-'' @ pad_nat 2 (nat d) @ ''T''
         @ pad_nat 2 (nat (ms div 3600000)) @ '':''
         @ pad_nat 2 (nat (ms div 60000 mod 60)) @ '':''
         @ pad_nat 2 (nat (ms div 1000 mod 60)) @ ''.''
         @ pad_nat 3 (nat (ms mod 1000)) @ ''Z'')"

definition valid_time :: "int \<Rightarrow> bool" where
  "valid_time t \<longleftrightarrow> \<bar>t\<bar> \<le> 8640000000000000"

subsection \<open>Property access and truthiness\<close>

fun truthy :: "jsval \<Rightarrow> bool" where
  "truthy JUndefined = False"
| "truthy JNull = False"
| "truthy (JBool b) = b"
| "truthy (JNum n) = (n \<noteq> 0)"
| "truthy (JStr s) = (s \<noteq> [])"
| "truthy _ = True"

fun own_props :: "jsval \<Rightarrow> (string \<times> jsval) list" where
  "own_props (JObj ps) = ps"
| "own_props (JMapLike ps es) = ps"
| "own_props (JSerializable ps r) = ps"
| "own_props _ = []"

text \<open>
  \<open>v.k\<close> for a key \<open>k\<close> that is not an index, and \<open>v[i]\<close> for an index. A missing
  property reads as \<open>undefined\<close>, which is also what the source's \<open>descriptor?.value\<close>
  gives on a missing descriptor.
\<close>

definition named_prop :: "jsval \<Rightarrow> string \<Rightarrow> jsval" where
  "named_prop v k = (case map_of (own_props v) k of Some x \<Rightarrow> x | None \<Rightarrow> JUndefined)"

fun index_prop :: "jsval \<Rightarrow> nat \<Rightarrow> jsval" where
  "index_prop (JArr xs) i = (if i < length xs then xs ! i else JUndefined)"
| "index_prop (JBuffer bs) i = (if i < length bs then JNum (int (bs ! i)) else JUndefined)"
| "index_prop (JStr s) i = (if i < length s then JStr [s ! i] else JUndefined)"
| "index_prop v i = named_prop v (show_nat i)"

text \<open>\<open>typeof v === 'object'\<close> for a value other than \<open>null\<close>.\<close>

fun is_object :: "jsval \<Rightarrow> bool" where
  "is_object (JDate t) = True"
| "is_object (JBuffer bs) = True"
| "is_object (JArr xs) = True"
| "is_object (JObj ps) = True"
| "is_object (JMapLike ps es) = True"
| "is_object (JSerializable ps r) = True"
| "is_object _ = False"

subsection \<open>Writing a property\<close>

text \<open>
  The own properties of an ordinary object are enumerated with the array indices first,
  in ascending order, and then the other names in the order in which they were created.
  An array index is the decimal form, without a sign or a leading zero, of a number below
  \<open>2^32 - 1\<close>.
\<close>

definition digit_value :: "char \<Rightarrow> nat option" where
  "digit_value c = map_of (zip ''0123456789'' [0, 1, 2, 3, 4, 5, 6, 7, 8, 9]) c"

definition array_index :: "string \<Rightarrow> nat option" where
  "array_index k =
     (case those (map digit_value k) of
        None \<Rightarrow> None
      | Some ds \<Rightarrow>
          if ds = [] \<or> (hd ds = 0 \<and> length ds > 1) then None
          else (let n = foldl (\<lambda>a d. 10 * a + d) 0 ds
                in if n < 4294967295 then Some n else None))"

definition index_below :: "nat \<Rightarrow> string \<times> jsval \<Rightarrow> bool" where
  "index_below i p = (case array_index (fst p) of Some j \<Rightarrow> j < i | None \<Rightarrow> False)"

text \<open>
  Defining the own property \<open>k\<close> with value \<open>v\<close>: a property of that name keeps its place
  and takes the value; a new array index goes after the smaller indices; any other new
  name goes to the end.
\<close>

definition define_prop ::
  "string \<Rightarrow> jsval \<Rightarrow> (string \<times> jsval) list \<Rightarrow> (string \<times> jsval) list" where
  "define_prop k v ps =
     (case array_index k of
        None \<Rightarrow> AList.update k v ps
      | Some i \<Rightarrow>
          if map_of ps k \<noteq> None then AList.update k v ps
          else takeWhile (index_below i) ps @ (k, v) # dropWhile (index_below i) ps)"

text \<open>
  The assignment \<open>obj[k] = v\<close> on an object created by \<open>{}\<close>, which inherits the
  accessor \<open>__proto__\<close> from \<open>Object.prototype\<close>. Under that name the assignment calls
  the setter and creates no property: an object or \<open>null\<close> becomes the prototype of
  \<open>obj\<close>, any other value is ignored. An object whose prototype was replaced is not
  followed further; the answer is \<open>None\<close> then. Under any other name the assignment
  defines the property.
\<close>

definition assign ::
  "(string \<times> jsval) list \<Rightarrow> string \<Rightarrow> jsval \<Rightarrow> (string \<times> jsval) list option" where
  "assign obj k v =
     (if k = ''__proto__'' then (if is_object v \<or> v = JNull then None else Some obj)
      else Some (define_prop k v obj))"

text \<open>\<open>obj[k] = v\<close> for each pair in turn, starting from \<open>{}\<close>.\<close>

definition assign_all :: "(string \<times> jsval) list \<Rightarrow> (string \<times> jsval) list option" where
  "assign_all kvs =
     foldl (\<lambda>obj kv. case obj of None \<Rightarrow> None | Some ps \<Rightarrow> assign ps (fst kv) (snd kv))
       (Some []) kvs"

text \<open>
  What a computation gives: a value, an exception, or, where the model does not work the
  result out, \<open>NotComputed\<close>. \<open>sequence\<close> runs computations from left to right and stops
  at the first that gives no value.
\<close>

datatype 'a outcome = Value 'a | Raises error | NotComputed

fun sequence :: "'a outcome list \<Rightarrow> 'a list outcome" where
  "sequence [] = Value []"
| "sequence (Value x # os) = map_outcome ((#) x) (sequence os)"
| "sequence (Raises e # os) = Raises e"
| "sequence (NotComputed # os) = NotComputed"

section \<open>\<open>convertToPlainObject\<close>\<close>

text \<open>
  The two broker encodings the source recognises by shape, in the source's order.
  \<open>NoEncoding\<close> means that the source goes on to the next test. \<open>Uncomputed\<close> is the
  answer where the result is not worked out here: on a component that is not a number
  (the source reads the components under the type assertions \<open>as Record<number, number>\<close>
  and \<open>as number\<close>, and the result is whatever the language's coercions give), and on a
  sum beyond the range in which a JavaScript number holds every integer exactly.
\<close>

datatype encoded = Decoded jsval | Uncomputed | NoEncoding

definition is_datetime_offset :: "(string \<times> jsval) list \<Rightarrow> bool" where
  "is_datetime_offset ps \<longleftrightarrow>
     named_prop (named_prop (JObj ps) ''descriptor'') ''value''
       = JStr ''com.microsoft:datetime-offset''
     \<and> truthy (named_prop (JObj ps) ''value'')"

text \<open>\<open>BigInt(bytes[i] || 0)\<close>.\<close>

definition byte_of :: "jsval \<Rightarrow> int option" where
  "byte_of v = (if truthy v then (case v of JNum n \<Rightarrow> Some n | _ \<Rightarrow> None) else Some 0)"

definition ticks_of :: "int list \<Rightarrow> int" where
  "ticks_of bs = foldl (\<lambda>ticks b. push_bit 8 ticks OR b) 0 bs"

text \<open>Division of \<open>BigInt\<close> values rounds towards zero.\<close>

definition bigint_div :: "int \<Rightarrow> int \<Rightarrow> int" where
  "bigint_div a b = sgn a * sgn b * (\<bar>a\<bar> div \<bar>b\<bar>)"

text \<open>
  The \<open>try\<close> block of the datetime-offset test: a \<open>RangeError\<close> of \<open>toISOString\<close> is
  caught and logged, and the source falls through to the next test.
\<close>

definition decode_datetime_offset :: "(string \<times> jsval) list \<Rightarrow> encoded" where
  "decode_datetime_offset ps =
     (if is_datetime_offset ps then
        (case those (map (\<lambda>i. byte_of (index_prop (named_prop (JObj ps) ''value'') i)) [0..<8]) of
           None \<Rightarrow> Uncomputed
         | Some bs \<Rightarrow>
             (let unixMillis = bigint_div (ticks_of bs - 621355968000000000) 10000
              in if valid_time unixMillis then Decoded (JStr (toISOString unixMillis))
                 else NoEncoding))
      else NoEncoding)"

text \<open>\<open>'low' in obj && 'high' in obj && !('type' in obj)\<close>.\<close>

definition is_long_shaped :: "(string \<times> jsval) list \<Rightarrow> bool" where
  "is_long_shaped ps \<longleftrightarrow>
     map_of ps ''low'' \<noteq> None \<and> map_of ps ''high'' \<noteq> None \<and> map_of ps ''type'' = None"

definition safe_integer :: "int \<Rightarrow> bool" where
  "safe_integer n \<longleftrightarrow> \<bar>n\<bar> \<le> 9007199254740992"

definition decode_long :: "(string \<times> jsval) list \<Rightarrow> encoded" where
  "decode_long ps =
     (if is_long_shaped ps then
        (case (named_prop (JObj ps) ''low'', named_prop (JObj ps) ''high'') of
           (JNum low, JNum high) \<Rightarrow>
             (let num = low + high * 4294967296
              in if safe_integer low \<and> safe_integer high \<and> safe_integer num then
                   (if num > 1000000000000 \<and> num < 2000000000000
                    then Decoded (JStr (toISOString num))
                    else Decoded (JNum num))
                 else Uncomputed)
         | _ \<Rightarrow> Uncomputed)
      else NoEncoding)"

definition decode_native :: "(string \<times> jsval) list \<Rightarrow> encoded" where
  "decode_native ps =
     (case decode_datetime_offset ps of NoEncoding \<Rightarrow> decode_long ps | r \<Rightarrow> r)"

text \<open>
  The copy loop \<open>result[key] = convertToPlainObject(...)\<close>, given the converted values
  in the order of the loop: the assignments build the result.
\<close>

fun copy_props :: "(string \<times> jsval) list outcome \<Rightarrow> jsval outcome" where
  "copy_props (Value kvs) =
     (case assign_all kvs of Some obj \<Rightarrow> Value (JObj obj) | None \<Rightarrow> NotComputed)"
| "copy_props (Raises e) = Raises e"
| "copy_props NotComputed = NotComputed"

text \<open>
  The function itself, test by test in the source's order: \<open>null\<close> and \<open>undefined\<close>,
  \<open>Date\<close>, \<open>Buffer\<close>, array, then for an object the two encodings, the map-like test, the
  \<open>toJSON\<close> test and the copy of a regular object; primitives last. On an invalid date
  the call raises the \<open>RangeError\<close> of \<open>toISOString\<close>, and an exception of a recursive
  call ends the calls around it. The methods \<open>forEach\<close> and \<open>toJSON\<close> are taken to
  return.
\<close>

fun convertToPlainObject :: "jsval \<Rightarrow> jsval outcome" where
  "convertToPlainObject JUndefined = Value JUndefined"
| "convertToPlainObject JNull = Value JNull"
| "convertToPlainObject (JDate t) =
     (if valid_time t then Value (JStr (toISOString t)) else Raises RangeError)"
| "convertToPlainObject (JBuffer bs) = Value (JBuffer bs)"
| "convertToPlainObject (JArr xs) =
     map_outcome JArr (sequence (map convertToPlainObject xs))"
| "convertToPlainObject (JObj ps) =
     (case decode_native ps of
        Decoded v \<Rightarrow> Value v
      | Uncomputed \<Rightarrow> NotComputed
      | NoEncoding \<Rightarrow>
          copy_props
            (sequence (map (\<lambda>kv. map_outcome (Pair (fst kv)) (convertToPlainObject (snd kv))) ps)))"
| "convertToPlainObject (JMapLike ps es) =
     (case decode_native ps of
        Decoded v \<Rightarrow> Value v
      | Uncomputed \<Rightarrow> NotComputed
      | NoEncoding \<Rightarrow>
          copy_props
            (sequence (map (\<lambda>kv. map_outcome (Pair (fst kv)) (convertToPlainObject (snd kv))) es)))"
| "convertToPlainObject (JSerializable ps r) =
     (case decode_native ps of
        Decoded v \<Rightarrow> Value v
      | Uncomputed \<Rightarrow> NotComputed
      | NoEncoding \<Rightarrow> convertToPlainObject r)"
| "convertToPlainObject (JBool b) = Value (JBool b)"
| "convertToPlainObject (JNum n) = Value (JNum n)"
| "convertToPlainObject (JStr s) = Value (JStr s)"

text \<open>
  Plain data, as the specification lists it: strings, numbers, booleans, null, arrays,
  binary buffers and string-keyed records of such values.
\<close>

fun plain :: "jsval \<Rightarrow> bool" where
  "plain JNull = True"
| "plain (JBool b) = True"
| "plain (JNum n) = True"
| "plain (JStr s) = True"
| "plain (JBuffer bs) = True"
| "plain (JArr xs) = (\<forall>x \<in> set xs. plain x)"
| "plain (JObj ps) = (\<forall>kv \<in> set ps. plain (snd kv))"
| "plain _ = False"

text \<open>No record inside the value has the shape of one of the two encodings.\<close>

fun encoding_free :: "jsval \<Rightarrow> bool" where
  "encoding_free (JArr xs) = (\<forall>x \<in> set xs. encoding_free x)"
| "encoding_free (JObj ps) =
     (\<not> is_datetime_offset ps \<and> \<not> is_long_shaped ps \<and> (\<forall>kv \<in> set ps. encoding_free (snd kv)))"
| "encoding_free _ = True"

text \<open>No record inside the value has an own property named \<open>__proto__\<close>.\<close>

fun proto_free :: "jsval \<Rightarrow> bool" where
  "proto_free (JArr xs) = (\<forall>x \<in> set xs. proto_free x)"
| "proto_free (JObj ps) =
     (map_of ps ''__proto__'' = None \<and> (\<forall>kv \<in> set ps. proto_free (snd kv)))"
| "proto_free _ = True"

text \<open>
  The properties of every record inside the value are listed as an object enumerates
  them: each name once, the array indices first and ascending.
\<close>

definition key_before :: "string \<Rightarrow> string \<Rightarrow> bool" where
  "key_before a b =
     (case array_index a of
        Some i \<Rightarrow> (case array_index b of Some j \<Rightarrow> i < j | None \<Rightarrow> True)
      | None \<Rightarrow> array_index b = None)"

definition enumeration_order :: "(string \<times> jsval) list \<Rightarrow> bool" where
  "enumeration_order ps \<longleftrightarrow> distinct (map fst ps) \<and> sorted_wrt key_before (map fst ps)"

fun well_formed :: "jsval \<Rightarrow> bool" where
  "well_formed (JArr xs) = (\<forall>x \<in> set xs. well_formed x)"
| "well_formed (JObj ps) = (enumeration_order ps \<and> (\<forall>kv \<in> set ps. well_formed (snd kv)))"
| "well_formed _ = True"

section \<open>Namespaces and the client pool\<close>

definition namespace_suffix :: string where
  "namespace_suffix = ''.servicebus.windows.net''"

text \<open>\<open>s.includes(sub)\<close>.\<close>

fun str_includes :: "string \<Rightarrow> string \<Rightarrow> bool" where
  "str_includes [] sub = (sub = [])"
| "str_includes (c # cs) sub = (prefix sub (c # cs) \<or> str_includes cs sub)"

text \<open>
  The regular expression \<open>/Endpoint=sb:\/\/([^.]+)\.servicebus\.windows\.net/\<close>. At one
  position: the literal, then the longest run of characters other than a dot, which must
  not be empty and must be followed by the suffix (the group cannot give a character
  back, since the next character has to be a dot). \<open>match\<close> takes the leftmost position
  that matches.
\<close>

definition match_at :: "string \<Rightarrow> string option" where
  "match_at s =
     (if prefix ''Endpoint=sb://'' s then
        (let rest = drop 14 s;
             name = takeWhile (\<lambda>c. c \<noteq> CHR ''.'') rest;
             tail = dropWhile (\<lambda>c. c \<noteq> CHR ''.'') rest
         in if name \<noteq> [] \<and> prefix namespace_suffix tail then Some name else None)
      else None)"

fun endpoint_match :: "string \<Rightarrow> string option" where
  "endpoint_match [] = match_at []"
| "endpoint_match (c # cs) =
     (case match_at (c # cs) of Some name \<Rightarrow> Some name | None \<Rightarrow> endpoint_match cs)"

definition getNamespaceFromConnectionString :: "string \<Rightarrow> string" where
  "getNamespaceFromConnectionString connectionString =
     (case endpoint_match connectionString of
        Some name \<Rightarrow> name @ namespace_suffix
      | None \<Rightarrow> [])"

text \<open>
  The service object. A client is an object with an identity: \<open>constructed\<close> and
  \<open>adminConstructed\<close> list the constructor calls made so far, and a client is named by
  the position of its construction. The three maps are the fields of the class.
\<close>

datatype client_args = FromConnectionString string | FromNamespace string

record service =
  clients :: "string \<rightharpoonup> nat"
  adminClients :: "string \<rightharpoonup> nat"
  connectionStrings :: "string \<rightharpoonup> string"
  constructed :: "client_args list"
  adminConstructed :: "client_args list"

definition registerConnectionString :: "service \<Rightarrow> string \<Rightarrow> string \<times> service" where
  "registerConnectionString svc connectionString =
     (let namespace = getNamespaceFromConnectionString connectionString
      in if namespace \<noteq> [] then
           (namespace,
            svc\<lparr>connectionStrings := (connectionStrings svc)(namespace \<mapsto> connectionString),
                clients := (clients svc)(namespace := None),
                adminClients := (adminClients svc)(namespace := None)\<rparr>)
         else (namespace, svc))"

definition client_args_for :: "service \<Rightarrow> string \<Rightarrow> client_args" where
  "client_args_for svc namespace =
     (case connectionStrings svc namespace of
        Some connectionString \<Rightarrow>
          if connectionString \<noteq> [] then FromConnectionString connectionString
          else FromNamespace (if str_includes namespace namespace_suffix then namespace
                              else namespace @ namespace_suffix)
      | None \<Rightarrow>
          FromNamespace (if str_includes namespace namespace_suffix then namespace
                         else namespace @ namespace_suffix))"

text \<open>
  What the service uses from outside besides the broker: the two constructors of the
  client library, each answering \<open>None\<close> when it returns the client and the error when it
  throws, and the language runtime where \<open>convertToPlainObject\<close> is not worked out:
  \<open>conversion_raises v\<close> says whether the call on such a value \<open>v\<close> raises.
\<close>

record runtime =
  new_client :: "client_args \<Rightarrow> error option"
  new_admin_client :: "client_args \<Rightarrow> error option"
  conversion_raises :: "jsval \<Rightarrow> error option"

text \<open>
  \<open>getClient\<close>: the cached client of the namespace string as passed, or a new one, which
  is cached under that string. When the constructor throws, nothing is cached and the
  exception leaves the method.
\<close>

definition getClient :: "runtime \<Rightarrow> service \<Rightarrow> string \<Rightarrow> error + nat \<times> service" where
  "getClient rt svc namespace =
     (case clients svc namespace of
        Some client \<Rightarrow> Inr (client, svc)
      | None \<Rightarrow>
          (case new_client rt (client_args_for svc namespace) of
             Some e \<Rightarrow> Inl e
           | None \<Rightarrow>
               (let client = length (constructed svc)
                in Inr (client,
                        svc\<lparr>constructed := constructed svc @ [client_args_for svc namespace],
                            clients := (clients svc)(namespace \<mapsto> client)\<rparr>))))"

definition getAdminClient :: "runtime \<Rightarrow> service \<Rightarrow> string \<Rightarrow> error + nat \<times> service" where
  "getAdminClient rt svc namespace =
     (case adminClients svc namespace of
        Some client \<Rightarrow> Inr (client, svc)
      | None \<Rightarrow>
          (case new_admin_client rt (client_args_for svc namespace) of
             Some e \<Rightarrow> Inl e
           | None \<Rightarrow>
               (let client = length (adminConstructed svc)
                in Inr (client,
                        svc\<lparr>adminConstructed :=
                              adminConstructed svc @ [client_args_for svc namespace],
                            adminClients := (adminClients svc)(namespace \<mapsto> client)\<rparr>))))"

definition new_service :: service where
  "new_service = \<lparr>clients = Map.empty, adminClients = Map.empty,
                  connectionStrings = Map.empty, constructed = [], adminConstructed = []\<rparr>"

text \<open>
  A runtime in which both constructors return and no conversion raises, and one in which
  the client constructor throws.
\<close>

definition quiet_runtime :: runtime where
  "quiet_runtime = \<lparr>new_client = (\<lambda>args. None), new_admin_client = (\<lambda>args. None),
                     conversion_raises = (\<lambda>v. None)\<rparr>"

definition offline_runtime :: runtime where
  "offline_runtime =
     quiet_runtime\<lparr>new_client := (\<lambda>args. Some (Rejected ''Invalid connection string''))\<rparr>"

subsection \<open>The namespaces of the tree view\<close>

text \<open>
  The service methods take the namespace from an item of the tree view, and the root
  items of the tree are the elements of the set \<open>namespaces\<close> of the tree provider. A
  namespace enters that set through \<open>addNamespace\<close>, which appends the suffix to a name
  that does not contain it. The set is a list without repetition here.
\<close>

definition normalizedNamespace :: "string \<Rightarrow> string" where
  "normalizedNamespace namespace =
     (if str_includes namespace namespace_suffix then namespace
      else namespace @ namespace_suffix)"


text \<open>
  What the regular expression means: somewhere in the string stands the literal, a
  non-empty name without a dot, and the suffix.
\<close>

definition endpoint_occurs :: "string \<Rightarrow> bool" where
  "endpoint_occurs s \<longleftrightarrow>
     (\<exists>pre name post. s = pre @ ''Endpoint=sb://'' @ name @ namespace_suffix @ post
        \<and> name \<noteq> [] \<and> CHR ''.'' \<notin> set name)"

text \<open>A service with two cached clients, used to try the operations on.\<close>

definition warm_service :: service where
  "warm_service =
     \<lparr>clients = [''ns1.servicebus.windows.net'' \<mapsto> 0, ''ns2.servicebus.windows.net'' \<mapsto> 1],
      adminClients = [''ns1.servicebus.windows.net'' \<mapsto> 0],
      connectionStrings = Map.empty,
      constructed = [FromNamespace ''ns1.servicebus.windows.net'',
                     FromNamespace ''ns2.servicebus.windows.net''],
      adminConstructed = [FromNamespace ''ns1.servicebus.windows.net'']\<rparr>"

section \<open>The REST peek-lock call\<close>

record request =
  url :: string
  http_method :: string
  request_headers :: "(string \<times> string) list"

text \<open>
  A response as \<open>fetch\<close> hands it over. \<open>headers\<close> lists the header fields in the order
  \<open>forEach\<close> visits them; the names are in lower case, as the \<open>Headers\<close> object keeps
  them. \<open>body_text\<close> is what \<open>response.text()\<close> resolves to.
\<close>

record response =
  status :: nat
  statusText :: string
  headers :: "(string \<times> string) list"
  body_text :: string

text \<open>
  The object the call returns. \<open>userProperties\<close> is \<open>None\<close> for an object whose
  prototype was replaced, which a header named \<open>__proto__\<close> brings about when its value
  parses to an object or to \<open>null\<close>.
\<close>

record rest_receipt =
  rest_body :: string
  brokerProperties :: jsval
  userProperties :: "(string \<times> jsval) list option"
  location :: string

text \<open>
  What the call uses from outside: \<open>getAuthHeader\<close> (the signature or bearer token for a
  namespace), \<open>fetch\<close> and \<open>JSON.parse\<close>, which answers \<open>None\<close> where it raises
  \<open>SyntaxError\<close> and otherwise with \<open>null\<close>, a boolean, a number, a string, an array or a
  record.
\<close>

record rest_env =
  getAuthHeader :: "string \<Rightarrow> error + string"
  fetch :: "request \<Rightarrow> error + response"
  json_parse :: "string \<Rightarrow> jsval option"

definition to_lower :: "char \<Rightarrow> char" where
  "to_lower c =
     (case map_of (zip ''ABCDEFGHIJKLMNOPQRSTUVWXYZ'' ''abcdefghijklmnopqrstuvwxyz'') c of
        Some l \<Rightarrow> l
      | None \<Rightarrow> c)"

definition headers_get :: "(string \<times> string) list \<Rightarrow> string \<Rightarrow> string option" where
  "headers_get hs name = map_of hs (map to_lower name)"

definition response_ok :: "response \<Rightarrow> bool" where
  "response_ok r \<longleftrightarrow> 200 \<le> status r \<and> status r \<le> 299"

definition standard_headers :: "string list" where
  "standard_headers =
     [''brokerproperties'', ''location'', ''content-type'', ''date'', ''server'',
      ''transfer-encoding'', ''strict-transport-security'']"

definition user_properties ::
  "rest_env \<Rightarrow> (string \<times> string) list \<Rightarrow> (string \<times> jsval) list option" where
  "user_properties env hs =
     assign_all
       (map (\<lambda>kv. (fst kv, case json_parse env (snd kv) of Some j \<Rightarrow> j | None \<Rightarrow> JStr (snd kv)))
          (filter (\<lambda>kv. map to_lower (fst kv) \<notin> set standard_headers) hs))"

definition peek_lock_request :: "string \<Rightarrow> string \<Rightarrow> string \<Rightarrow> request" where
  "peek_lock_request namespace dlqPath authHeader =
     \<lparr>url = ''https://'' @ namespace @ ''/'' @ dlqPath @ ''/messages/head'',
      http_method = ''POST'',
      request_headers = [(''Authorization'', authHeader),
                         (''Content-Type'', ''application/json'')]\<rparr>"

text \<open>
  \<open>brokerPropertiesHeader ? JSON.parse(brokerPropertiesHeader) : {}\<close>: a missing or empty
  header gives the empty record; \<open>None\<close> where \<open>JSON.parse\<close> raises.
\<close>

definition broker_properties_of :: "rest_env \<Rightarrow> response \<Rightarrow> jsval option" where
  "broker_properties_of env response =
     (case headers_get (headers response) ''BrokerProperties'' of
        Some h \<Rightarrow> if h \<noteq> [] then json_parse env h else Some (JObj [])
      | None \<Rightarrow> Some (JObj []))"

definition location_of :: "response \<Rightarrow> string" where
  "location_of response =
     (case headers_get (headers response) ''Location'' of Some l \<Rightarrow> l | None \<Rightarrow> [])"

text \<open>
  The last statement before the return logs \<open>brokerProperties.SequenceNumber\<close> and
  \<open>brokerProperties.LockToken\<close> in a template string. Reading a property of \<open>null\<close>
  raises \<open>TypeError\<close>, and so does the template on a value that has no string form:
  among the values \<open>JSON.parse\<close> gives, a record with an own property \<open>toString\<close>
  (which is no function, so that the conversion finds no method to call), and an array
  with such an element.
\<close>

fun printable :: "jsval \<Rightarrow> bool" where
  "printable (JArr xs) = (\<forall>x \<in> set xs. printable x)"
| "printable (JObj ps) = (map_of ps ''toString'' = None)"
| "printable v = True"

definition loggable :: "jsval \<Rightarrow> bool" where
  "loggable props \<longleftrightarrow>
     props \<noteq> JNull
     \<and> printable (named_prop props ''SequenceNumber'')
     \<and> printable (named_prop props ''LockToken'')"

text \<open>
  The call itself: the authorization header, the request, the three cases of the status,
  the two headers, the user properties, the body text, the log line and the result.
\<close>

definition peekLockMessageRest ::
  "rest_env \<Rightarrow> string \<Rightarrow> string \<Rightarrow> error + rest_receipt option" where
  "peekLockMessageRest env namespace dlqPath =
     (case getAuthHeader env namespace of
        Inl e \<Rightarrow> Inl e
      | Inr authHeader \<Rightarrow>
          (case fetch env (peek_lock_request namespace dlqPath authHeader) of
             Inl e \<Rightarrow> Inl e
           | Inr response \<Rightarrow>
               if status response = 204 then Inr None
               else if \<not> response_ok response then
                 Inl (Error (''REST API peek-lock failed: '' @ show_nat (status response)
                             @ '' '' @ statusText response @ '' - '' @ body_text response))
               else
                 (case broker_properties_of env response of
                    None \<Rightarrow> Inl SyntaxError
                  | Some props \<Rightarrow>
                      if \<not> loggable props then Inl TypeError
                      else
                        Inr (Some \<lparr>rest_body = body_text response,
                                   brokerProperties = props,
                                   userProperties = user_properties env (headers response),
                                   location = location_of response\<rparr>))))"

text \<open>
  An environment that answers every request with the given status and the given
  \<open>BrokerProperties\<close> header, to try the call on. Its \<open>JSON.parse\<close> knows the texts the
  examples use.
\<close>

definition example_parse :: "string \<Rightarrow> jsval option" where
  "example_parse s =
     map_of [(''{}'', JObj []),
             (''null'', JNull),
             (''{\"SequenceNumber\":42,\"LockToken\":\"t1\"}'',
              JObj [(''SequenceNumber'', JNum 42), (''LockToken'', JStr ''t1'')]),
             (''{\"SequenceNumber\":{\"toString\":1}}'',
              JObj [(''SequenceNumber'', JObj [(''toString'', JNum 1)])])] s"

definition example_response :: "nat \<Rightarrow> string \<Rightarrow> response" where
  "example_response code brokerPropertiesHeader =
     \<lparr>status = code, statusText = ''Status'',
      headers = [(''brokerproperties'', brokerPropertiesHeader),
                 (''location'', ''https://ns/q/messages/1/lock''),
                 (''priority'', ''high'')],
      body_text = ''payload''\<rparr>"

definition example_env :: "nat \<Rightarrow> string \<Rightarrow> rest_env" where
  "example_env code brokerPropertiesHeader =
     \<lparr>getAuthHeader = (\<lambda>ns. Inr ''SharedAccessSignature sr=x''),
      fetch = (\<lambda>req. Inr (example_response code brokerPropertiesHeader)),
      json_parse = example_parse\<rparr>"

section \<open>Resubmitting a dead-lettered message\<close>

text \<open>
  A received message, with the fields the source reads. The sequence number is a 64-bit
  integer that the source compares through its decimal string; an absent field is
  \<open>None\<close>, which is \<open>undefined\<close> in the source.
\<close>

record message =
  body :: jsval
  contentType :: "string option"
  correlationId :: "string option"
  subject :: "string option"
  sessionId :: "string option"
  messageId :: "string option"
  sequenceNumber :: "int option"
  deadLetterReason :: "string option"
  applicationProperties :: jsval

text \<open>
  The message handed to \<open>sendMessages\<close>. Body and application properties are \<open>None\<close>
  where \<open>convertToPlainObject\<close> is not worked out.
\<close>

record outgoing =
  out_body :: "jsval option"
  out_contentType :: "string option"
  out_correlationId :: "string option"
  out_subject :: "string option"
  out_sessionId :: "string option"
  out_messageId :: "string option"
  out_applicationProperties :: "(string \<times> jsval) list option"

text \<open>
  A run of \<open>resubmitMessage\<close> is recorded as the list of calls it makes on the sender and
  the receivers, each call to the broker with its outcome (\<open>None\<close> when it resolves, the
  error when it is rejected). \<open>broker\<close> says how the broker answers each call of one
  run: the confirmation peek, the receive under peek-lock, every abandon, send and
  complete, and the receive of the second receiver in \<open>receiveAndDelete\<close> mode. A theorem
  about every \<open>broker\<close> covers every behaviour of the real one. The calls that create
  the sender and the receivers and the \<open>close\<close> calls are recorded and taken to return.
\<close>

datatype entity = Queue string | Subscription string string

datatype deletion_report = TargetDeleted | AssumedDeleted nat | NotDeleted

datatype event =
    CreateSender string
  | CreateReceiver entity
  | PeekMessages
  | ReceiveMessages
  | AbandonMessage message "error option"
  | SendMessages outgoing "error option"
  | CompleteMessage message "error option"
  | CreateDeleteReceiver entity
  | ReceiveAndDelete
  | Report deletion_report
  | CloseSender
  | CloseReceiver
  | CloseDeleteReceiver

record broker =
  peekMessages :: "error + message list"
  receiveMessages :: "error + message list"
  abandonMessage :: "message \<Rightarrow> error option"
  sendMessages :: "outgoing \<Rightarrow> error option"
  completeMessage :: "message \<Rightarrow> error option"
  receiveAndDelete :: "error + message list"

text \<open>Optional names: \<open>if (queueName)\<close> holds for a name that is given and not empty.\<close>

definition truthy_name :: "string option \<Rightarrow> bool" where
  "truthy_name n = (case n of Some s \<Rightarrow> s \<noteq> [] | None \<Rightarrow> False)"

definition name_of :: "string option \<Rightarrow> string" where
  "name_of n = (case n of Some s \<Rightarrow> s | None \<Rightarrow> [])"

definition string_or_undefined :: "string option \<Rightarrow> jsval" where
  "string_or_undefined s = (case s of Some x \<Rightarrow> JStr x | None \<Rightarrow> JUndefined)"

text \<open>
  The body is normalized when it is an object other than \<open>null\<close> and a \<open>Buffer\<close>, inside
  a \<open>try\<close> block: when the conversion raises, the body is sent as it is.
\<close>

fun is_buffer :: "jsval \<Rightarrow> bool" where
  "is_buffer (JBuffer bs) = True"
| "is_buffer _ = False"

definition plain_body :: "jsval \<Rightarrow> jsval option" where
  "plain_body messageBody =
     (if messageBody \<noteq> JNull \<and> messageBody \<noteq> JUndefined
         \<and> is_object messageBody \<and> \<not> is_buffer messageBody
      then (case convertToPlainObject messageBody of
              Value v \<Rightarrow> Some v
            | Raises e \<Rightarrow> Some messageBody
            | NotComputed \<Rightarrow> None)
      else Some messageBody)"

text \<open>
  The application properties are normalized outside any \<open>try\<close> block of their own: an
  exception of \<open>convertToPlainObject\<close> ends the \<open>try\<close> block of \<open>resubmitMessage\<close> before
  the message is built and sent. \<open>properties_abort\<close> is that exception, if there is one;
  where the conversion is not worked out, the runtime says whether it raises.
\<close>

definition properties_abort :: "runtime \<Rightarrow> message \<Rightarrow> error option" where
  "properties_abort rt m =
     (case convertToPlainObject (applicationProperties m) of
        Value convertedAppProps \<Rightarrow> None
      | Raises e \<Rightarrow> Some e
      | NotComputed \<Rightarrow> conversion_raises rt (applicationProperties m))"

definition converted_properties :: "message \<Rightarrow> jsval option" where
  "converted_properties m =
     (case convertToPlainObject (applicationProperties m) of
        Value convertedAppProps \<Rightarrow> Some convertedAppProps
      | Raises e \<Rightarrow> None
      | NotComputed \<Rightarrow> None)"

text \<open>
  The sent properties are the object literal
  \<open>{...convertedAppProps, 'x-resubmitted': true, ...}\<close>: the spread copies the own
  properties of an object, the indexed entries of an array, a string or a buffer, and
  nothing of any other value; each key written after it replaces the value of a property
  of that name or is added at the end (none of the three names is an array index).
\<close>

definition indexed :: "jsval list \<Rightarrow> (string \<times> jsval) list" where
  "indexed xs = map (\<lambda>i. (show_nat i, xs ! i)) [0..<length xs]"

fun spread :: "jsval \<Rightarrow> (string \<times> jsval) list" where
  "spread (JObj ps) = ps"
| "spread (JMapLike ps es) = ps"
| "spread (JSerializable ps r) = ps"
| "spread (JArr xs) = indexed xs"
| "spread (JStr s) = indexed (map (\<lambda>c. JStr [c]) s)"
| "spread (JBuffer bs) = indexed (map (\<lambda>b. JNum (int b)) bs)"
| "spread _ = []"

definition locked_properties :: "message \<Rightarrow> (string \<times> jsval) list option" where
  "locked_properties targetMessage =
     map_option
       (\<lambda>convertedAppProps.
          AList.update ''x-original-dead-letter-reason''
            (string_or_undefined (deadLetterReason targetMessage))
            (AList.update ''x-resubmitted'' (JBool True) (spread convertedAppProps)))
       (converted_properties targetMessage)"

definition peeked_properties :: "message \<Rightarrow> (string \<times> jsval) list option" where
  "peeked_properties peekedTarget =
     map_option
       (\<lambda>convertedAppProps.
          AList.update ''x-original-message-id'' (string_or_undefined (messageId peekedTarget))
            (AList.update ''x-original-dead-letter-reason''
               (string_or_undefined (deadLetterReason peekedTarget))
               (AList.update ''x-resubmitted'' (JBool True) (spread convertedAppProps))))
       (converted_properties peekedTarget)"

text \<open>
  The two messages the source builds: from the message received under lock, and from the
  peeked message on the fallback path, where the message id gets the prefix
  \<open>resubmit-\<close>.
\<close>

definition locked_outgoing :: "message \<Rightarrow> outgoing" where
  "locked_outgoing targetMessage =
     \<lparr>out_body = plain_body (body targetMessage),
      out_contentType = contentType targetMessage,
      out_correlationId = correlationId targetMessage,
      out_subject = subject targetMessage,
      out_sessionId = sessionId targetMessage,
      out_messageId = messageId targetMessage,
      out_applicationProperties = locked_properties targetMessage\<rparr>"

definition peeked_outgoing :: "message \<Rightarrow> outgoing" where
  "peeked_outgoing peekedTarget =
     \<lparr>out_body = plain_body (body peekedTarget),
      out_contentType = contentType peekedTarget,
      out_correlationId = correlationId peekedTarget,
      out_subject = subject peekedTarget,
      out_sessionId = sessionId peekedTarget,
      out_messageId =
        Some (''resubmit-'' @ (case messageId peekedTarget of Some i \<Rightarrow> i | None \<Rightarrow> ''undefined'')),
      out_applicationProperties = peeked_properties peekedTarget\<rparr>"

text \<open>
  The loop over the received batch: a message with the target's sequence number becomes
  \<open>targetMessage\<close>, every other message is abandoned. A rejected abandon ends the loop
  and the \<open>try\<close> block with its error.
\<close>

fun receive_loop ::
  "broker \<Rightarrow> int option \<Rightarrow> message list \<Rightarrow> message option
     \<Rightarrow> event list \<times> (error + message option)" where
  "receive_loop b targetSequenceNumber [] targetMessage = ([], Inr targetMessage)"
| "receive_loop b targetSequenceNumber (msg # msgs) targetMessage =
     (if sequenceNumber msg = targetSequenceNumber
      then receive_loop b targetSequenceNumber msgs (Some msg)
      else
        (case abandonMessage b msg of
           Some e \<Rightarrow> ([AbandonMessage msg (Some e)], Inl e)
         | None \<Rightarrow>
             (let (tr, r) = receive_loop b targetSequenceNumber msgs targetMessage
              in (AbandonMessage msg None # tr, r))))"

text \<open>
  The fallback path cannot complete the source copy, since it holds no lock. It opens a
  second receiver in \<open>receiveAndDelete\<close> mode, takes up to 100 messages off the dead-letter
  queue, and looks for the target among them by message id or sequence number. The
  outcome goes to the console only; \<open>Report\<close> records which of the three messages is
  printed.
\<close>

definition deletion_report_of :: "message \<Rightarrow> int option \<Rightarrow> message list \<Rightarrow> deletion_report" where
  "deletion_report_of peekedTarget targetSequenceNumber deletedMessages =
     (let wasDeleted =
            list_ex (\<lambda>m. messageId m = messageId peekedTarget
                          \<or> sequenceNumber m = targetSequenceNumber) deletedMessages
      in if wasDeleted then TargetDeleted
         else if length deletedMessages > 0 then AssumedDeleted (length deletedMessages)
         else NotDeleted)"

definition delete_after_resend ::
  "broker \<Rightarrow> message \<Rightarrow> int option \<Rightarrow> entity \<Rightarrow> event list \<times> (error + unit)" where
  "delete_after_resend b peekedTarget targetSequenceNumber dlq =
     (case receiveAndDelete b of
        Inl e \<Rightarrow> ([CreateDeleteReceiver dlq, ReceiveAndDelete, CloseDeleteReceiver], Inl e)
      | Inr deletedMessages \<Rightarrow>
          ([CreateDeleteReceiver dlq, ReceiveAndDelete,
            Report (deletion_report_of peekedTarget targetSequenceNumber deletedMessages),
            CloseDeleteReceiver],
           Inr ()))"

text \<open>
  The fallback path (no message with the target's sequence number in the batch): convert
  the peeked data, resend from it, close the receiver, then delete through the second
  receiver. When the conversion of the application properties raises, nothing is sent.
\<close>

definition resubmit_from_peek ::
  "runtime \<Rightarrow> broker \<Rightarrow> message \<Rightarrow> int option \<Rightarrow> entity \<Rightarrow> event list \<times> (error + unit)" where
  "resubmit_from_peek rt b peekedTarget targetSequenceNumber dlq =
     (case properties_abort rt peekedTarget of
        Some e \<Rightarrow> ([], Inl e)
      | None \<Rightarrow>
          (case sendMessages b (peeked_outgoing peekedTarget) of
             Some e \<Rightarrow> ([SendMessages (peeked_outgoing peekedTarget) (Some e)], Inl e)
           | None \<Rightarrow>
               (let (tr, r) = delete_after_resend b peekedTarget targetSequenceNumber dlq
                in (SendMessages (peeked_outgoing peekedTarget) None # CloseReceiver # tr, r))))"

text \<open>
  The lock-held path: convert, send, and only when the send has resolved, complete. When
  the conversion of the application properties raises, nothing is sent or completed.
\<close>

definition resubmit_locked ::
  "runtime \<Rightarrow> broker \<Rightarrow> message \<Rightarrow> event list \<times> (error + unit)" where
  "resubmit_locked rt b targetMessage =
     (case properties_abort rt targetMessage of
        Some e \<Rightarrow> ([], Inl e)
      | None \<Rightarrow>
          (case sendMessages b (locked_outgoing targetMessage) of
             Some e \<Rightarrow> ([SendMessages (locked_outgoing targetMessage) (Some e)], Inl e)
           | None \<Rightarrow>
               (case completeMessage b targetMessage of
                  Some e \<Rightarrow>
                    ([SendMessages (locked_outgoing targetMessage) None,
                      CompleteMessage targetMessage (Some e)], Inl e)
                | None \<Rightarrow>
                    ([SendMessages (locked_outgoing targetMessage) None,
                      CompleteMessage targetMessage None], Inr ()))))"

text \<open>
  The \<open>try\<close> block: the confirmation peek of up to 100 messages from sequence number 1,
  the two \<open>throw\<close> statements when the target is not among them, the receive under
  peek-lock, the loop, and one of the two paths.
\<close>

definition resubmit_try ::
  "runtime \<Rightarrow> broker \<Rightarrow> message \<Rightarrow> entity \<Rightarrow> event list \<times> (error + unit)" where
  "resubmit_try rt b message dlq =
     (let targetSequenceNumber = sequenceNumber message in
      case peekMessages b of
        Inl e \<Rightarrow> ([PeekMessages], Inl e)
      | Inr peekedMessages \<Rightarrow>
          if length peekedMessages = 0 then
            ([PeekMessages], Inl (Error ''No messages found in dead-letter queue.''))
          else
            (case find (\<lambda>m. sequenceNumber m = targetSequenceNumber) peekedMessages of
               None \<Rightarrow>
                 ([PeekMessages], Inl (Error ''Target message not found in dead-letter queue.''))
             | Some peekedTarget \<Rightarrow>
                 (case receiveMessages b of
                    Inl e \<Rightarrow> ([PeekMessages, ReceiveMessages], Inl e)
                  | Inr messages \<Rightarrow>
                      (case receive_loop b targetSequenceNumber messages None of
                         (tr, Inl e) \<Rightarrow> (PeekMessages # ReceiveMessages # tr, Inl e)
                       | (tr, Inr None) \<Rightarrow>
                           (let (tr', r) =
                                  resubmit_from_peek rt b peekedTarget targetSequenceNumber dlq
                            in (PeekMessages # ReceiveMessages # tr @ tr', r))
                       | (tr, Inr (Some targetMessage)) \<Rightarrow>
                           (let (tr', r) = resubmit_locked rt b targetMessage
                            in (PeekMessages # ReceiveMessages # tr @ tr', r))))))"

definition names_given :: "string option \<Rightarrow> string option \<Rightarrow> string option \<Rightarrow> bool" where
  "names_given queueName topicName subscriptionName \<longleftrightarrow>
     truthy_name queueName \<or> (truthy_name topicName \<and> truthy_name subscriptionName)"

definition sender_of :: "string option \<Rightarrow> string option \<Rightarrow> string" where
  "sender_of queueName topicName =
     (if truthy_name queueName then name_of queueName else name_of topicName)"

definition dlq_of :: "string option \<Rightarrow> string option \<Rightarrow> string option \<Rightarrow> entity" where
  "dlq_of queueName topicName subscriptionName =
     (if truthy_name queueName then Queue (name_of queueName)
      else Subscription (name_of topicName) (name_of subscriptionName))"

text \<open>
  The body of \<open>resubmitMessage\<close> after the client is taken from the pool: the sender, the
  dead-letter receiver, the \<open>try\<close> block, and the \<open>finally\<close> block that closes both. The two
  \<open>throw\<close> statements on missing names stand before the \<open>try\<close>.
\<close>

definition resubmit_with_client ::
  "runtime \<Rightarrow> broker \<Rightarrow> message \<Rightarrow> string option \<Rightarrow> string option \<Rightarrow> string option
     \<Rightarrow> event list \<times> (error + unit)" where
  "resubmit_with_client rt b message queueName topicName subscriptionName =
     (if \<not> truthy_name queueName \<and> \<not> truthy_name topicName then
        ([], Inl (Error ''Either queueName or topicName must be provided''))
      else if \<not> names_given queueName topicName subscriptionName then
        ([CreateSender (sender_of queueName topicName)],
         Inl (Error ''Either queueName or both topicName and subscriptionName must be provided''))
      else
        (let dlq = dlq_of queueName topicName subscriptionName;
             (tr, r) = resubmit_try rt b message dlq
         in (CreateSender (sender_of queueName topicName) # CreateReceiver dlq # tr
               @ [CloseSender, CloseReceiver], r)))"

text \<open>
  \<open>resubmitMessage\<close>: the first statement takes the client from the pool; when the
  constructor throws there, the call ends with that exception before any call on the
  broker.
\<close>

definition resubmitMessage ::
  "runtime \<Rightarrow> service \<Rightarrow> broker \<Rightarrow> string \<Rightarrow> message
     \<Rightarrow> string option \<Rightarrow> string option \<Rightarrow> string option
     \<Rightarrow> service \<times> event list \<times> (error + unit)" where
  "resubmitMessage rt svc b namespace message queueName topicName subscriptionName =
     (case getClient rt svc namespace of
        Inl e \<Rightarrow> (svc, [], Inl e)
      | Inr (client, svc') \<Rightarrow>
          (svc', resubmit_with_client rt b message queueName topicName subscriptionName))"

subsection \<open>Reading a trace\<close>

text \<open>
  The messages a trace abandoned and completed successfully, and the messages of a
  received batch that the trace leaves locked: received, and neither abandoned nor
  completed.
\<close>

fun abandoned :: "event list \<Rightarrow> message list" where
  "abandoned [] = []"
| "abandoned (AbandonMessage m None # tr) = m # abandoned tr"
| "abandoned (ev # tr) = abandoned tr"

fun completed :: "event list \<Rightarrow> message list" where
  "completed [] = []"
| "completed (CompleteMessage m None # tr) = m # completed tr"
| "completed (ev # tr) = completed tr"

definition left_locked :: "message list \<Rightarrow> event list \<Rightarrow> message list" where
  "left_locked batch tr =
     filter (\<lambda>m. m \<notin> set (abandoned tr) \<and> m \<notin> set (completed tr)) batch"

fun is_abandon :: "event \<Rightarrow> bool" where
  "is_abandon (AbandonMessage m c) = True"
| "is_abandon ev = False"

fun is_complete :: "event \<Rightarrow> bool" where
  "is_complete (CompleteMessage m c) = True"
| "is_complete ev = False"

subsection \<open>Example runs\<close>

text \<open>
  A dead-letter queue of three messages, the third being the one to resubmit, and
  brokers that answer in different ways: all calls resolve; the receive under peek-lock
  returns nothing (the session quirk) and the second receiver returns a given batch; the
  first abandon is rejected; the receive returns only the other two messages; the send is
  rejected; the target is no longer in the queue; the target carries an invalid date among
  its application properties.
\<close>

definition msg7 :: message where
  "msg7 = \<lparr>body = JStr ''seven'', contentType = None, correlationId = None, subject = None,
           sessionId = None, messageId = Some ''m7'', sequenceNumber = Some 7,
           deadLetterReason = Some ''TTLExpiredException'',
           applicationProperties = JUndefined\<rparr>"

definition msg8 :: message where
  "msg8 = \<lparr>body = JStr ''eight'', contentType = None, correlationId = None, subject = None,
           sessionId = None, messageId = Some ''m8'', sequenceNumber = Some 8,
           deadLetterReason = Some ''TTLExpiredException'',
           applicationProperties = JUndefined\<rparr>"

definition msg42 :: message where
  "msg42 = \<lparr>body = JStr ''{\"a\":1}'', contentType = Some ''application/json'',
            correlationId = None, subject = None, sessionId = None,
            messageId = Some ''m1'', sequenceNumber = Some 42,
            deadLetterReason = Some ''MaxDeliveryCountExceeded'',
            applicationProperties = JObj [(''tenant'', JStr ''acme'')]\<rparr>"

definition healthy_broker :: broker where
  "healthy_broker =
     \<lparr>peekMessages = Inr [msg7, msg8, msg42],
      receiveMessages = Inr [msg7, msg8, msg42],
      abandonMessage = (\<lambda>m. None),
      sendMessages = (\<lambda>out. None),
      completeMessage = (\<lambda>m. None),
      receiveAndDelete = Inr []\<rparr>"


definition lossy_broker :: broker where
  "lossy_broker =
     healthy_broker\<lparr>abandonMessage :=
       (\<lambda>m. if m = msg7 then Some (Rejected ''The lock supplied is invalid.'') else None)\<rparr>"

definition stale_broker :: broker where
  "stale_broker =
     healthy_broker\<lparr>receiveMessages := Inr [msg7, msg8], receiveAndDelete := Inr [msg7]\<rparr>"

definition unreachable_broker :: broker where
  "unreachable_broker =
     healthy_broker\<lparr>sendMessages := (\<lambda>out. Some (Rejected ''The operation timed out.''))\<rparr>"

definition emptied_broker :: broker where
  "emptied_broker = healthy_broker\<lparr>peekMessages := Inr [msg7, msg8]\<rparr>"

definition undated :: message where
  "undated = msg42\<lparr>applicationProperties :=
               JObj [(''tenant'', JStr ''acme''), (''since'', JDate 8640000000000001)]\<rparr>"

definition undated_broker :: "message list \<Rightarrow> broker" where
  "undated_broker batch =
     healthy_broker\<lparr>peekMessages := Inr [msg7, undated], receiveMessages := Inr batch\<rparr>"

section \<open>Properties of the normalizer\<close>

lemma sequence_map_Value:
  "(\<And>x. x \<in> set xs \<Longrightarrow> f x = Value (g x)) \<Longrightarrow> sequence (map f xs) = Value (map g xs)"
  by (induction xs) auto

lemma decode_native_long:
  assumes "map_of ps ''low'' = Some (JNum low)" and "map_of ps ''high'' = Some (JNum high)"
    and "map_of ps ''type'' = None" and "\<not> is_datetime_offset ps"
    and "safe_integer low" and "safe_integer high" and "safe_integer (low + high * 2 ^ 32)"
  shows "decode_native ps =
     Decoded (if 1000000000000 < low + high * 2 ^ 32 \<and> low + high * 2 ^ 32 < 2000000000000
              then JStr (toISOString (low + high * 2 ^ 32)) else JNum (low + high * 2 ^ 32))"
  using assms
  by (simp add: decode_native_def decode_datetime_offset_def decode_long_def is_long_shaped_def
      named_prop_def Let_def)

lemma decode_native_free:
  "\<not> is_datetime_offset ps \<Longrightarrow> \<not> is_long_shaped ps \<Longrightarrow> decode_native ps = NoEncoding"
  by (simp add: decode_native_def decode_datetime_offset_def decode_long_def)

lemma toISOString_lower_example: "toISOString 1000000000001 = ''2001-09-09T01:46:40.001Z''"
  by code_simp

text \<open>
  Claim C3, as the code has it. An object with numeric \<open>low\<close> and \<open>high\<close> properties and no
  \<open>type\<close> property, which is not a datetime-offset record, is read as
  \<open>n = low + high * 2^32\<close>, whatever kind of object it is; \<open>low\<close>, \<open>high\<close> and \<open>n\<close> are
  integers up to \<open>2^53\<close> in magnitude, where the arithmetic of the source is exact. The
  result is the ISO-8601 string of \<open>n\<close> exactly when \<open>n\<close> lies strictly between
  \<open>1_000_000_000_000\<close> and \<open>2_000_000_000_000\<close>, and the number \<open>n\<close> otherwise: both bounds
  are excluded.
\<close>

theorem split_word_open_interval:
  assumes "map_of ps ''low'' = Some (JNum low)" and "map_of ps ''high'' = Some (JNum high)"
    and "map_of ps ''type'' = None" and "\<not> is_datetime_offset ps"
    and "safe_integer low" and "safe_integer high" and "safe_integer (low + high * 2 ^ 32)"
  shows "(let n = low + high * 2 ^ 32;
              r = (if 1000000000000 < n \<and> n < 2000000000000 then JStr (toISOString n)
                   else JNum n)
          in convertToPlainObject (JObj ps) = Value r
             \<and> convertToPlainObject (JMapLike ps es) = Value r
             \<and> convertToPlainObject (JSerializable ps j) = Value r)"
  using decode_native_long [OF assms] by (simp add: Let_def)

theorem split_word_open_interval_witness:
  "convertToPlainObject (JObj [(''low'', JNum 3567587329), (''high'', JNum 232)])
     = Value (JStr ''2001-09-09T01:46:40.001Z'')"
  using split_word_open_interval
    [of "[(''low'', JNum 3567587329), (''high'', JNum 232)]" 3567587329 232 "[]" JNull]
  by (simp add: is_datetime_offset_def named_prop_def toISOString_lower_example Let_def
      safe_integer_def del: convertToPlainObject.simps)

text \<open>
  The claim as stated puts the lower bound inside the interval. At \<open>low = 3567587328\<close>,
  \<open>high = 232\<close> the value is \<open>1_000_000_000_000\<close> and the result is the number.
\<close>

theorem split_word_lower_bound_counterexample:
  "(1000000000000 :: int) \<le> 3567587328 + 232 * 2 ^ 32
   \<and> (3567587328 + 232 * 2 ^ 32 :: int) < 2000000000000
   \<and> convertToPlainObject (JObj [(''low'', JNum 3567587328), (''high'', JNum 232)])
       = Value (JNum 1000000000000)"
  by (simp add: decode_native_def decode_datetime_offset_def is_datetime_offset_def
      named_prop_def decode_long_def is_long_shaped_def safe_integer_def)

lemma enumeration_order_butlast:
  "enumeration_order (ps @ [kv]) \<Longrightarrow> enumeration_order ps"
  by (simp add: enumeration_order_def sorted_wrt_append)

lemma define_prop_last:
  assumes "enumeration_order (ps @ [(k, v)])"
  shows "define_prop k v ps = ps @ [(k, v)]"
proof -
  have fresh: "k \<notin> fst ` set ps"
    using assms by (auto simp: enumeration_order_def)
  then have miss: "map_of ps k = None"
    by (simp add: map_of_eq_None_iff)
  have upd: "AList.update k v ps = ps @ [(k, v)]"
    using fresh by (induction ps) auto
  have before: "\<forall>p \<in> set ps. key_before (fst p) k"
    using assms by (auto simp: enumeration_order_def sorted_wrt_append)
  show ?thesis
  proof (cases "array_index k")
    case None
    then show ?thesis by (simp add: define_prop_def upd)
  next
    case (Some i)
    have "\<forall>p \<in> set ps. index_below i p"
      using before Some by (auto simp: key_before_def index_below_def split: option.splits)
    then have "takeWhile (index_below i) ps = ps" and "dropWhile (index_below i) ps = []"
      by simp_all
    then show ?thesis using Some miss by (simp add: define_prop_def)
  qed
qed

lemma assign_all_snoc:
  "assign_all (kvs @ [kv]) =
     (case assign_all kvs of None \<Rightarrow> None | Some ps \<Rightarrow> assign ps (fst kv) (snd kv))"
  by (simp add: assign_all_def)

lemma assign_all_enumeration_order:
  "enumeration_order ps \<Longrightarrow> map_of ps ''__proto__'' = None \<Longrightarrow> assign_all ps = Some ps"
proof (induction ps rule: rev_induct)
  case Nil
  then show ?case by (simp add: assign_all_def)
next
  case (snoc kv ps)
  obtain k v where kv: "kv = (k, v)" by (cases kv)
  have ord: "enumeration_order ps" using snoc.prems(1) by (rule enumeration_order_butlast)
  have keys: "''__proto__'' \<notin> fst ` set (ps @ [kv])"
    using snoc.prems(2) by (simp only: map_of_eq_None_iff simp_thms)
  then have "map_of ps ''__proto__'' = None" and k: "k \<noteq> ''__proto__''"
    using kv by (auto simp: map_of_eq_None_iff)
  then have "assign_all ps = Some ps" using snoc.IH ord by simp
  moreover have "define_prop k v ps = ps @ [(k, v)]"
    using snoc.prems(1) kv by (simp add: define_prop_last)
  ultimately show ?case using k kv by (simp add: assign_all_snoc assign_def)
qed

text \<open>
  Claim C7, as the code has it. A plain value, its records written as an object
  enumerates its properties, comes back equal to itself provided no record inside it has
  the shape of an encoding or an own property named \<open>__proto__\<close>: none has both a \<open>low\<close>
  and a \<open>high\<close> property without a \<open>type\<close> property, and none has a \<open>descriptor\<close> whose
  \<open>value\<close> is \<open>com.microsoft:datetime-offset\<close> next to a truthy \<open>value\<close> property.
\<close>

theorem normalize_plain_unchanged:
  "plain v \<Longrightarrow> encoding_free v \<Longrightarrow> proto_free v \<Longrightarrow> well_formed v
     \<Longrightarrow> convertToPlainObject v = Value v"
proof (induction v rule: convertToPlainObject.induct)
  case (5 xs)
  then have "sequence (map convertToPlainObject xs) = Value (map (\<lambda>x. x) xs)"
    by (intro sequence_map_Value) auto
  then show ?case by simp
next
  case (6 ps)
  then have free: "decode_native ps = NoEncoding"
    by (simp add: decode_native_free)
  have "sequence (map (\<lambda>kv. map_outcome (Pair (fst kv)) (convertToPlainObject (snd kv))) ps)
        = Value (map (\<lambda>kv. kv) ps)"
    using 6 free by (intro sequence_map_Value) auto
  moreover have "assign_all ps = Some ps"
    using 6(2-) by (simp add: assign_all_enumeration_order)
  ultimately show ?case using free by simp
qed simp_all

theorem normalize_plain_unchanged_witness:
  "convertToPlainObject
     (JObj [(''7'', JNum 0), (''a'', JArr [JNum 1, JStr ''x'', JNull]), (''low'', JNum 5),
            (''b'', JBuffer [1, 2])])
   = Value (JObj [(''7'', JNum 0), (''a'', JArr [JNum 1, JStr ''x'', JNull]), (''low'', JNum 5),
                  (''b'', JBuffer [1, 2])])"
  using normalize_plain_unchanged
    [of "JObj [(''7'', JNum 0), (''a'', JArr [JNum 1, JStr ''x'', JNull]), (''low'', JNum 5),
               (''b'', JBuffer [1, 2])]"]
  by (simp add: is_datetime_offset_def is_long_shaped_def named_prop_def enumeration_order_def
      key_before_def array_index_def digit_value_def del: convertToPlainObject.simps)

text \<open>
  The claim as stated includes plain records with numeric \<open>low\<close> and \<open>high\<close> fields. Such a
  record is read as a split-word integer and comes back as a number.
\<close>

theorem normalize_plain_low_high_counterexample:
  "plain (JObj [(''low'', JNum 1), (''high'', JNum 2)])
   \<and> convertToPlainObject (JObj [(''low'', JNum 1), (''high'', JNum 2)]) = Value (JNum 8589934593)
   \<and> convertToPlainObject (JObj [(''low'', JNum 1), (''high'', JNum 2)])
       \<noteq> Value (JObj [(''low'', JNum 1), (''high'', JNum 2)])"
  by (simp add: decode_native_def decode_datetime_offset_def is_datetime_offset_def
      named_prop_def decode_long_def is_long_shaped_def safe_integer_def)

text \<open>
  A plain record with an own property \<open>__proto__\<close>, as \<open>JSON.parse\<close> makes one from
  \<open>{"__proto__": 1, "a": 2}\<close>, does not come back equal either: the assignment under that
  name reaches the inherited setter, which ignores a number, and the copy lacks the
  property.
\<close>

lemma normalize_proto_property_dropped:
  "plain (JObj [(''__proto__'', JNum 1), (''a'', JNum 2)])
   \<and> encoding_free (JObj [(''__proto__'', JNum 1), (''a'', JNum 2)])
   \<and> convertToPlainObject (JObj [(''__proto__'', JNum 1), (''a'', JNum 2)])
       = Value (JObj [(''a'', JNum 2)])"
  by (simp add: decode_native_def decode_datetime_offset_def is_datetime_offset_def
      named_prop_def decode_long_def is_long_shaped_def assign_all_def assign_def
      define_prop_def array_index_def digit_value_def)

text \<open>An invalid date inside a value makes the whole call raise.\<close>

lemma normalize_invalid_date_raises:
  "convertToPlainObject (JObj [(''a'', JNum 1), (''when'', JDate 8640000000000001)])
     = Raises RangeError"
  by (simp add: decode_native_def decode_datetime_offset_def is_datetime_offset_def
      named_prop_def decode_long_def is_long_shaped_def valid_time_def)

section \<open>Properties of the client pool\<close>

lemma match_at_iff:
  "match_at s = Some name \<longleftrightarrow>
     (\<exists>post. s = ''Endpoint=sb://'' @ name @ namespace_suffix @ post
        \<and> name \<noteq> [] \<and> CHR ''.'' \<notin> set name)"
proof
  assume m: "match_at s = Some name"
  then have p: "prefix ''Endpoint=sb://'' s"
    by (auto simp: match_at_def split: if_splits)
  then obtain rest where s: "s = ''Endpoint=sb://'' @ rest"
    by (auto simp: prefix_def)
  have rest: "drop 14 s = rest" by (simp add: s)
  from m p rest have name: "name = takeWhile (\<lambda>c. c \<noteq> CHR ''.'') rest" "name \<noteq> []"
    and tl: "prefix namespace_suffix (dropWhile (\<lambda>c. c \<noteq> CHR ''.'') rest)"
    by (auto simp: match_at_def Let_def split: if_splits)
  from tl obtain post where post: "dropWhile (\<lambda>c. c \<noteq> CHR ''.'') rest = namespace_suffix @ post"
    by (auto simp: prefix_def)
  have "rest = name @ namespace_suffix @ post"
    using takeWhile_dropWhile_id [of "\<lambda>c. c \<noteq> CHR ''.''" rest] name post by simp
  moreover have "CHR ''.'' \<notin> set name"
    using name(1) by (auto dest: set_takeWhileD)
  ultimately show "\<exists>post. s = ''Endpoint=sb://'' @ name @ namespace_suffix @ post
        \<and> name \<noteq> [] \<and> CHR ''.'' \<notin> set name"
    using s name(2) by auto
next
  assume "\<exists>post. s = ''Endpoint=sb://'' @ name @ namespace_suffix @ post
        \<and> name \<noteq> [] \<and> CHR ''.'' \<notin> set name"
  then obtain post where s: "s = ''Endpoint=sb://'' @ name @ namespace_suffix @ post"
    and ne: "name \<noteq> []" and nd: "CHR ''.'' \<notin> set name" by auto
  have d: "drop 14 s = name @ namespace_suffix @ post" by (simp add: s)
  have all: "\<forall>c\<in>set name. c \<noteq> CHR ''.''" using nd by auto
  have tw: "takeWhile (\<lambda>c. c \<noteq> CHR ''.'') (name @ namespace_suffix @ post) = name"
    using all by (simp add: takeWhile_append2 namespace_suffix_def)
  have dw: "dropWhile (\<lambda>c. c \<noteq> CHR ''.'') (name @ namespace_suffix @ post) = namespace_suffix @ post"
    using all by (simp add: dropWhile_append2 namespace_suffix_def)
  have "prefix ''Endpoint=sb://'' s" by (simp add: s)
  then show "match_at s = Some name"
    using ne by (simp add: match_at_def d tw dw)
qed

lemma endpoint_match_None_iff:
  "endpoint_match s = None \<longleftrightarrow> (\<forall>pre t. s = pre @ t \<longrightarrow> match_at t = None)"
proof (induction s)
  case Nil
  then show ?case by simp
next
  case (Cons c cs)
  show ?case
  proof
    assume a: "endpoint_match (c # cs) = None"
    then have h: "match_at (c # cs) = None" and r: "endpoint_match cs = None"
      by (auto split: option.splits)
    show "\<forall>pre t. c # cs = pre @ t \<longrightarrow> match_at t = None"
    proof (intro allI impI)
      fix pre t assume e: "c # cs = pre @ t"
      show "match_at t = None"
      proof (cases pre)
        case Nil
        then show ?thesis using e h by simp
      next
        case (Cons p ps)
        then have "cs = ps @ t" using e by simp
        then show ?thesis using r Cons.IH by blast
      qed
    qed
  next
    assume a: "\<forall>pre t. c # cs = pre @ t \<longrightarrow> match_at t = None"
    then have h: "match_at (c # cs) = None" by (metis append_Nil)
    have "\<forall>pre t. cs = pre @ t \<longrightarrow> match_at t = None"
      using a by (metis append_Cons)
    then have "endpoint_match cs = None" using Cons.IH by blast
    then show "endpoint_match (c # cs) = None" using h by simp
  qed
qed

lemma endpoint_match_None_occurs: "endpoint_match s = None \<longleftrightarrow> \<not> endpoint_occurs s"
proof
  assume n: "endpoint_match s = None"
  show "\<not> endpoint_occurs s"
  proof
    assume "endpoint_occurs s"
    then obtain pre name post where
      s: "s = pre @ ''Endpoint=sb://'' @ name @ namespace_suffix @ post"
      and nm: "name \<noteq> []" "CHR ''.'' \<notin> set name"
      unfolding endpoint_occurs_def by blast
    have "match_at (''Endpoint=sb://'' @ name @ namespace_suffix @ post) = Some name"
      using nm by (subst match_at_iff) blast
    moreover have "match_at (''Endpoint=sb://'' @ name @ namespace_suffix @ post) = None"
      using n s endpoint_match_None_iff by blast
    ultimately show False by simp
  qed
next
  assume o: "\<not> endpoint_occurs s"
  have "\<forall>pre t. s = pre @ t \<longrightarrow> match_at t = None"
  proof (intro allI impI)
    fix pre t assume e: "s = pre @ t"
    show "match_at t = None"
    proof (rule ccontr)
      assume "match_at t \<noteq> None"
      then obtain name where "match_at t = Some name" by auto
      then obtain post where "t = ''Endpoint=sb://'' @ name @ namespace_suffix @ post"
        "name \<noteq> []" "CHR ''.'' \<notin> set name"
        using match_at_iff by blast
      then have "endpoint_occurs s" unfolding endpoint_occurs_def using e by blast
      then show False using o by simp
    qed
  qed
  then show "endpoint_match s = None" using endpoint_match_None_iff by blast
qed

lemma getNamespace_empty_iff:
  "getNamespaceFromConnectionString cs = [] \<longleftrightarrow> endpoint_match cs = None"
  by (auto simp: getNamespaceFromConnectionString_def namespace_suffix_def split: option.splits)

text \<open>
  Claim C10. On a string in which the endpoint pattern does not occur,
  \<open>registerConnectionString\<close> returns the empty string and the service is unchanged. On a
  string in which it occurs, the parsed namespace is returned, its connection string is
  stored, its cached client and admin client are evicted, and for every other namespace
  the three maps are as before; no client is constructed.
\<close>

theorem registerConnectionString_frame:
  "(\<not> endpoint_occurs cs \<longrightarrow> registerConnectionString svc cs = ([], svc))
   \<and> (endpoint_occurs cs \<longrightarrow>
        (let ns = getNamespaceFromConnectionString cs;
             svc' = snd (registerConnectionString svc cs)
         in ns \<noteq> [] \<and> fst (registerConnectionString svc cs) = ns
            \<and> connectionStrings svc' = (connectionStrings svc)(ns \<mapsto> cs)
            \<and> clients svc' = (clients svc)(ns := None)
            \<and> adminClients svc' = (adminClients svc)(ns := None)
            \<and> constructed svc' = constructed svc
            \<and> adminConstructed svc' = adminConstructed svc
            \<and> (\<forall>k. k \<noteq> ns \<longrightarrow>
                   connectionStrings svc' k = connectionStrings svc k
                   \<and> clients svc' k = clients svc k
                   \<and> adminClients svc' k = adminClients svc k)))"
proof (cases "endpoint_occurs cs")
  case False
  then have "getNamespaceFromConnectionString cs = []"
    by (simp add: getNamespace_empty_iff endpoint_match_None_occurs)
  then show ?thesis using False by (simp add: registerConnectionString_def)
next
  case True
  then have "getNamespaceFromConnectionString cs \<noteq> []"
    by (simp add: getNamespace_empty_iff endpoint_match_None_occurs)
  then show ?thesis using True by (simp add: registerConnectionString_def Let_def)
qed

lemma endpoint_occurs_example:
  "endpoint_occurs ''Endpoint=sb://ns1.servicebus.windows.net/;SharedAccessKeyName=k;SharedAccessKey=v''"
proof (rule ccontr)
  assume "\<not> endpoint_occurs
    ''Endpoint=sb://ns1.servicebus.windows.net/;SharedAccessKeyName=k;SharedAccessKey=v''"
  then have "endpoint_match
    ''Endpoint=sb://ns1.servicebus.windows.net/;SharedAccessKeyName=k;SharedAccessKey=v'' = None"
    by (simp only: endpoint_match_None_occurs simp_thms)
  then show False
    by (simp add: match_at_def namespace_suffix_def)
qed

lemma endpoint_absent_example: "\<not> endpoint_occurs ''SharedAccessKey=v''"
proof -
  have "endpoint_match ''SharedAccessKey=v'' = None"
    by (simp add: match_at_def)
  then show ?thesis
    by (simp only: endpoint_match_None_occurs simp_thms)
qed

lemma getNamespace_example:
  "getNamespaceFromConnectionString
     ''Endpoint=sb://ns1.servicebus.windows.net/;SharedAccessKeyName=k;SharedAccessKey=v''
   = ''ns1.servicebus.windows.net''"
  by (simp add: getNamespaceFromConnectionString_def match_at_def namespace_suffix_def)

theorem registerConnectionString_frame_witness:
  "registerConnectionString warm_service ''SharedAccessKey=v'' = ([], warm_service)
   \<and> fst (registerConnectionString warm_service
        ''Endpoint=sb://ns1.servicebus.windows.net/;SharedAccessKeyName=k;SharedAccessKey=v'')
      = ''ns1.servicebus.windows.net''
   \<and> clients (snd (registerConnectionString warm_service
        ''Endpoint=sb://ns1.servicebus.windows.net/;SharedAccessKeyName=k;SharedAccessKey=v''))
        ''ns1.servicebus.windows.net'' = None
   \<and> clients (snd (registerConnectionString warm_service
        ''Endpoint=sb://ns1.servicebus.windows.net/;SharedAccessKeyName=k;SharedAccessKey=v''))
        ''ns2.servicebus.windows.net'' = Some 1"
  using registerConnectionString_frame [of "''SharedAccessKey=v''" warm_service]
    registerConnectionString_frame
      [of "''Endpoint=sb://ns1.servicebus.windows.net/;SharedAccessKeyName=k;SharedAccessKey=v''"
          warm_service]
    endpoint_occurs_example endpoint_absent_example
  by (simp add: getNamespace_example Let_def warm_service_def)

lemma str_includes_self: "str_includes s s"
  by (cases s) simp_all

lemma str_includes_append: "str_includes (pre @ s) s"
  by (induction pre) (simp_all add: str_includes_self)

lemma normalizedNamespace_suffixed:
  "normalizedNamespace (bare @ namespace_suffix) = bare @ namespace_suffix"
  by (simp add: normalizedNamespace_def str_includes_append)

lemma normalizedNamespace_registered:
  "normalizedNamespace (getNamespaceFromConnectionString cs) = getNamespaceFromConnectionString cs
   \<or> getNamespaceFromConnectionString cs = []"
  by (simp add: getNamespaceFromConnectionString_def normalizedNamespace_suffixed
      split: option.splits)


text \<open>
  The cache of \<open>getClient\<close> itself is keyed by the string as it is passed: under a string
  that is not cached yet the method constructs a further client, also when a client for
  the same namespace is cached under another string.
\<close>

lemma getClient_keyed_by_string:
  assumes "clients svc k = None" and "new_client rt (client_args_for svc k) = None"
  shows "getClient rt svc k =
           Inr (length (constructed svc),
                svc\<lparr>constructed := constructed svc @ [client_args_for svc k],
                    clients := (clients svc)(k \<mapsto> length (constructed svc))\<rparr>)"
  using assms by (simp add: getClient_def Let_def)

text \<open>When the constructor throws, the service is as before and no client is cached.\<close>

lemma getClient_constructor_throws:
  "getClient offline_runtime new_service ''foo.servicebus.windows.net''
     = Inl (Rejected ''Invalid connection string'')"
  by (simp add: getClient_def offline_runtime_def quiet_runtime_def new_service_def)



section \<open>Properties of the REST peek-lock call\<close>

text \<open>
  Claim C9, as the code has it. Given the response to the peek-lock request: the call
  returns \<open>null\<close> exactly when the status is 204; on any other status outside 200 to 299
  it raises an error whose message ends with the response body text. On a status inside
  that range, when the \<open>BrokerProperties\<close> header is missing or empty the call returns the
  receipt with the empty record for the broker properties; when \<open>JSON.parse\<close> rejects the
  header the call raises \<open>SyntaxError\<close>; when the header parses to \<open>null\<close>, or to a value
  whose \<open>SequenceNumber\<close> or \<open>LockToken\<close> the log line cannot print, the call raises
  \<open>TypeError\<close>; and otherwise it returns the receipt with the value \<open>JSON.parse\<close> gave.
  Every receipt carries the \<open>Location\<close> header (empty when missing) and the body text as
  received.
\<close>

theorem peekLock_status_cases:
  assumes "getAuthHeader env namespace = Inr authHeader"
    and "fetch env (peek_lock_request namespace dlqPath authHeader) = Inr response"
  shows "(peekLockMessageRest env namespace dlqPath = Inr None \<longleftrightarrow> status response = 204)
    \<and> (status response \<noteq> 204 \<and> \<not> response_ok response \<longrightarrow>
          peekLockMessageRest env namespace dlqPath =
            Inl (Error (''REST API peek-lock failed: '' @ show_nat (status response)
                        @ '' '' @ statusText response @ '' - '' @ body_text response)))
    \<and> (status response \<noteq> 204 \<and> response_ok response \<longrightarrow>
          (let receipt = (\<lambda>props.
                 \<lparr>rest_body = body_text response,
                  brokerProperties = props,
                  userProperties = user_properties env (headers response),
                  location = (case map_of (headers response) ''location'' of
                                Some l \<Rightarrow> l | None \<Rightarrow> [])\<rparr>)
           in (map_of (headers response) ''brokerproperties'' = None
                 \<or> map_of (headers response) ''brokerproperties'' = Some [] \<longrightarrow>
                 peekLockMessageRest env namespace dlqPath = Inr (Some (receipt (JObj []))))
              \<and> (\<forall>h. map_of (headers response) ''brokerproperties'' = Some h \<and> h \<noteq> [] \<longrightarrow>
                    (json_parse env h = None \<longrightarrow>
                       peekLockMessageRest env namespace dlqPath = Inl SyntaxError)
                    \<and> (\<forall>props. json_parse env h = Some props \<longrightarrow>
                          (props = JNull \<longrightarrow>
                             peekLockMessageRest env namespace dlqPath = Inl TypeError)
                          \<and> (\<not> loggable props \<longrightarrow>
                                peekLockMessageRest env namespace dlqPath = Inl TypeError)
                          \<and> (loggable props \<longrightarrow>
                                peekLockMessageRest env namespace dlqPath
                                  = Inr (Some (receipt props)))))))"
proof -
  have get_bp: "headers_get (headers response) ''BrokerProperties''
      = map_of (headers response) ''brokerproperties''"
    by (simp add: headers_get_def to_lower_def)
  have get_loc: "headers_get (headers response) ''Location''
      = map_of (headers response) ''location''"
    by (simp add: headers_get_def to_lower_def)
  have null: "\<not> loggable JNull" by (simp add: loggable_def)
  have empty: "loggable (JObj [])" by (simp add: loggable_def named_prop_def)
  show ?thesis
    using assms null empty
    by (auto simp: peekLockMessageRest_def broker_properties_of_def location_of_def
        get_bp get_loc Let_def split: option.splits if_splits)
qed

lemma peekLock_None_only_204:
  "peekLockMessageRest env namespace dlqPath = Inr None \<longleftrightarrow>
     (\<exists>authHeader response. getAuthHeader env namespace = Inr authHeader
        \<and> fetch env (peek_lock_request namespace dlqPath authHeader) = Inr response
        \<and> status response = 204)"
  by (auto simp: peekLockMessageRest_def split: sum.splits option.splits if_splits)

lemma example_auth:
  "getAuthHeader (example_env c h) ''ns1.servicebus.windows.net'' = Inr ''SharedAccessSignature sr=x''"
  by (simp add: example_env_def)

lemma example_fetch:
  "fetch (example_env c h)
     (peek_lock_request ''ns1.servicebus.windows.net'' ''q/$deadletterqueue'' ''SharedAccessSignature sr=x'')
   = Inr (example_response c h)"
  by (simp add: example_env_def)

lemma example_user_properties:
  "user_properties (example_env c h) (headers (example_response c b))
     = Some [(''priority'', JStr ''high'')]"
  by (simp add: user_properties_def standard_headers_def to_lower_def example_env_def
      example_response_def example_parse_def assign_all_def assign_def define_prop_def
      array_index_def digit_value_def)

theorem peekLock_status_cases_witness:
  "peekLockMessageRest (example_env 204 ''{}'') ''ns1.servicebus.windows.net'' ''q/$deadletterqueue'' = Inr None
   \<and> peekLockMessageRest (example_env 500 ''{}'') ''ns1.servicebus.windows.net'' ''q/$deadletterqueue''
       = Inl (Error ''REST API peek-lock failed: 500 Status - payload'')
   \<and> peekLockMessageRest
         (example_env 201 ''{\"SequenceNumber\":42,\"LockToken\":\"t1\"}'')
         ''ns1.servicebus.windows.net'' ''q/$deadletterqueue''
       = Inr (Some \<lparr>rest_body = ''payload'',
                    brokerProperties =
                      JObj [(''SequenceNumber'', JNum 42), (''LockToken'', JStr ''t1'')],
                    userProperties = Some [(''priority'', JStr ''high'')],
                    location = ''https://ns/q/messages/1/lock''\<rparr>)
   \<and> peekLockMessageRest (example_env 200 [])
         ''ns1.servicebus.windows.net'' ''q/$deadletterqueue''
       = Inr (Some \<lparr>rest_body = ''payload'', brokerProperties = JObj [],
                    userProperties = Some [(''priority'', JStr ''high'')],
                    location = ''https://ns/q/messages/1/lock''\<rparr>)
   \<and> peekLockMessageRest (example_env 200 ''{\"SequenceNumber\":{\"toString\":1}}'')
         ''ns1.servicebus.windows.net'' ''q/$deadletterqueue''
       = Inl TypeError"
proof -
  have s500: "show_nat 500 = ''500''" by code_simp
  have log: "loggable (JObj [(''SequenceNumber'', JNum 42), (''LockToken'', JStr ''t1'')])"
    "\<not> loggable (JObj [(''SequenceNumber'', JObj [(''toString'', JNum 1)])])"
    by (simp_all add: loggable_def named_prop_def)
  have parse: "json_parse (example_env 201 ''{\"SequenceNumber\":42,\"LockToken\":\"t1\"}'')
        ''{\"SequenceNumber\":42,\"LockToken\":\"t1\"}''
      = Some (JObj [(''SequenceNumber'', JNum 42), (''LockToken'', JStr ''t1'')])"
    "json_parse (example_env 200 ''{\"SequenceNumber\":{\"toString\":1}}'')
        ''{\"SequenceNumber\":{\"toString\":1}}''
      = Some (JObj [(''SequenceNumber'', JObj [(''toString'', JNum 1)])])"
    by (simp_all add: example_env_def example_parse_def)
  have hd: "\<And>c h. map_of (headers (example_response c h)) ''brokerproperties'' = Some h"
    "\<And>c h. map_of (headers (example_response c h)) ''location''
       = Some ''https://ns/q/messages/1/lock''"
    "\<And>c h. status (example_response c h) = c"
    "\<And>c h. statusText (example_response c h) = ''Status''"
    "\<And>c h. body_text (example_response c h) = ''payload''"
    by (simp_all add: example_response_def)
  show ?thesis
    using peekLock_status_cases [OF example_auth example_fetch, of 204 "''{}''"]
      peekLock_status_cases [OF example_auth example_fetch, of 500 "''{}''"]
      peekLock_status_cases [OF example_auth example_fetch, of 201
        "''{\"SequenceNumber\":42,\"LockToken\":\"t1\"}''"]
      peekLock_status_cases [OF example_auth example_fetch, of 200 "[]"]
      peekLock_status_cases [OF example_auth example_fetch, of 200
        "''{\"SequenceNumber\":{\"toString\":1}}''"]
    by (simp add: response_ok_def s500 hd log parse example_user_properties Let_def)
qed

text \<open>
  The claim as stated lets every success status return the parsed header. At status 200
  with a \<open>BrokerProperties\<close> header that is no JSON text, \<open>JSON.parse\<close> raises and the call
  returns nothing.
\<close>

theorem peekLock_malformed_header_counterexample:
  "status (example_response 200 ''not json'') = 200
   \<and> response_ok (example_response 200 ''not json'')
   \<and> fetch (example_env 200 ''not json'')
        (peek_lock_request ''ns1.servicebus.windows.net'' ''q/$deadletterqueue'' ''SharedAccessSignature sr=x'')
       = Inr (example_response 200 ''not json'')
   \<and> json_parse (example_env 200 ''not json'') ''not json'' = None
   \<and> peekLockMessageRest (example_env 200 ''not json'') ''ns1.servicebus.windows.net'' ''q/$deadletterqueue''
       = Inl SyntaxError"
  by (simp add: peekLockMessageRest_def example_env_def example_response_def
      example_parse_def response_ok_def broker_properties_of_def headers_get_def to_lower_def)

section \<open>Properties of the resubmission\<close>

subsection \<open>The receive loop\<close>

lemma abandoned_append: "abandoned (xs @ ys) = abandoned xs @ abandoned ys"
  by (induction xs rule: abandoned.induct) simp_all

lemma completed_append: "completed (xs @ ys) = completed xs @ completed ys"
  by (induction xs rule: completed.induct) simp_all

lemma completed_abandons: "\<forall>ev\<in>set tr. is_abandon ev \<Longrightarrow> completed tr = []"
  by (induction tr rule: completed.induct) simp_all

lemma receive_loop_events:
  "receive_loop b tgt msgs found = (tr, r) \<Longrightarrow> ev \<in> set tr \<Longrightarrow>
     \<exists>m c. ev = AbandonMessage m c \<and> m \<in> set msgs \<and> sequenceNumber m \<noteq> tgt"
proof (induction msgs arbitrary: found tr r)
  case Nil
  then show ?case by simp
next
  case (Cons msg msgs)
  show ?case
  proof (cases "sequenceNumber msg = tgt")
    case True
    then have "receive_loop b tgt msgs (Some msg) = (tr, r)" using Cons.prems(1) by simp
    from Cons.IH [OF this Cons.prems(2)] show ?thesis by auto
  next
    case False
    show ?thesis
    proof (cases "abandonMessage b msg")
      case (Some e)
      then show ?thesis using False Cons.prems by auto
    next
      case None
      obtain tr' r' where l: "receive_loop b tgt msgs found = (tr', r')" by force
      then have tr: "tr = AbandonMessage msg None # tr'" using None False Cons.prems(1) by simp
      show ?thesis
      proof (cases "ev = AbandonMessage msg None")
        case True
        then show ?thesis using False by auto
      next
        case ne: False
        then have "ev \<in> set tr'" using tr Cons.prems(2) by simp
        from Cons.IH [OF l this] show ?thesis by auto
      qed
    qed
  qed
qed

lemma receive_loop_rejected:
  "receive_loop b tgt msgs found = (tr, r) \<Longrightarrow> AbandonMessage m (Some e) \<in> set tr \<Longrightarrow>
     r = Inl e"
proof (induction msgs arbitrary: found tr r)
  case Nil
  then show ?case by simp
next
  case (Cons msg msgs)
  show ?case
  proof (cases "sequenceNumber msg = tgt")
    case True
    then have "receive_loop b tgt msgs (Some msg) = (tr, r)" using Cons.prems(1) by simp
    from Cons.IH [OF this Cons.prems(2)] show ?thesis .
  next
    case False
    show ?thesis
    proof (cases "abandonMessage b msg")
      case (Some e')
      then show ?thesis using False Cons.prems by auto
    next
      case None
      obtain tr' r' where l: "receive_loop b tgt msgs found = (tr', r')" by force
      then have tr: "tr = AbandonMessage msg None # tr'" and r: "r = r'"
        using None False Cons.prems(1) by simp_all
      then have "AbandonMessage m (Some e) \<in> set tr'" using Cons.prems(2) by simp
      from Cons.IH [OF l this] show ?thesis using r by simp
    qed
  qed
qed

lemma receive_loop_abandons:
  "receive_loop b tgt msgs found = (tr, r) \<Longrightarrow> \<forall>ev\<in>set tr. is_abandon ev"
  by (auto dest: receive_loop_events)

lemma receive_loop_found:
  "receive_loop b tgt msgs found = (tr, Inr (Some m)) \<Longrightarrow>
     (m \<in> set msgs \<and> sequenceNumber m = tgt) \<or> found = Some m"
proof (induction msgs arbitrary: found tr)
  case Nil
  then show ?case by simp
next
  case (Cons msg msgs)
  show ?case
  proof (cases "sequenceNumber msg = tgt")
    case True
    then have "receive_loop b tgt msgs (Some msg) = (tr, Inr (Some m))" using Cons.prems by simp
    from Cons.IH [OF this] show ?thesis using True by auto
  next
    case False
    show ?thesis
    proof (cases "abandonMessage b msg")
      case (Some e)
      then show ?thesis using False Cons.prems by simp
    next
      case None
      obtain tr' r' where l: "receive_loop b tgt msgs found = (tr', r')" by force
      then have "r' = Inr (Some m)" using None False Cons.prems by simp
      with l Cons.IH [of found tr'] show ?thesis by auto
    qed
  qed
qed

lemma receive_loop_all_abandoned:
  "\<forall>m\<in>set msgs. sequenceNumber m \<noteq> tgt \<longrightarrow> abandonMessage b m = None \<Longrightarrow>
   receive_loop b tgt msgs found = (tr, r) \<Longrightarrow>
     tr = map (\<lambda>m. AbandonMessage m None) (filter (\<lambda>m. sequenceNumber m \<noteq> tgt) msgs)
     \<and> (\<exists>res. r = Inr res)"
proof (induction msgs arbitrary: found tr r)
  case Nil
  then show ?case by auto
next
  case (Cons msg msgs)
  show ?case
  proof (cases "sequenceNumber msg = tgt")
    case True
    then have "receive_loop b tgt msgs (Some msg) = (tr, r)" using Cons.prems(2) by simp
    moreover have "\<forall>m\<in>set msgs. sequenceNumber m \<noteq> tgt \<longrightarrow> abandonMessage b m = None"
      using Cons.prems(1) by simp
    ultimately show ?thesis using Cons.IH True by simp
  next
    case False
    then have ok: "abandonMessage b msg = None" using Cons.prems(1) by simp
    obtain tr' r' where l: "receive_loop b tgt msgs found = (tr', r')" by force
    then have tr: "tr = AbandonMessage msg None # tr'" and r: "r = r'"
      using ok False Cons.prems(2) by simp_all
    have "\<forall>m\<in>set msgs. sequenceNumber m \<noteq> tgt \<longrightarrow> abandonMessage b m = None"
      using Cons.prems(1) by simp
    from Cons.IH [OF this l] show ?thesis using tr r False by simp
  qed
qed

lemma abandoned_map: "abandoned (map (\<lambda>m. AbandonMessage m None) ms) = ms"
  by (induction ms) simp_all


subsection \<open>The confirmation peek\<close>

lemma resubmitMessage_trace:
  "resubmitMessage rt svc b ns message q t s = (svc', tr, r) \<Longrightarrow>
     (tr = [] \<and> (\<exists>e. r = Inl e)) \<or> resubmit_with_client rt b message q t s = (tr, r)"
  by (auto simp: resubmitMessage_def split: sum.splits prod.splits)

lemma resubmitMessage_with_client:
  "resubmitMessage rt svc b ns message q t s = (svc', tr, r) \<Longrightarrow>
   getClient rt svc ns = Inr (c, svc'') \<Longrightarrow>
     resubmit_with_client rt b message q t s = (tr, r)"
  by (simp add: resubmitMessage_def)

lemma find_absent:
  "x \<notin> f ` set xs \<Longrightarrow> find (\<lambda>m. f m = x) xs = None"
  by (auto simp: find_None_iff)

lemma resubmit_try_not_found:
  assumes "peekMessages b = Inr peeked"
    and "sequenceNumber message \<notin> sequenceNumber ` set peeked"
  shows "resubmit_try rt b message dlq =
     ([PeekMessages],
      Inl (Error (if peeked = [] then ''No messages found in dead-letter queue.''
                  else ''Target message not found in dead-letter queue.'')))"
  using assms by (simp add: resubmit_try_def Let_def find_absent)

lemma not_found_with_client:
  assumes "resubmit_with_client rt b message q t s = (tr, r)"
    and "peekMessages b = Inr peeked"
    and "sequenceNumber message \<notin> sequenceNumber ` set peeked"
  shows "ReceiveMessages \<notin> set tr \<and> ReceiveAndDelete \<notin> set tr
    \<and> (\<exists>text. r = Inl (Error text))
    \<and> (names_given q t s \<longrightarrow>
          tr = [CreateSender (sender_of q t), CreateReceiver (dlq_of q t s), PeekMessages,
                CloseSender, CloseReceiver]
          \<and> r = Inl (Error (if peeked = [] then ''No messages found in dead-letter queue.''
                            else ''Target message not found in dead-letter queue.'')))"
proof (cases "names_given q t s")
  case True
  then have "\<not> (\<not> truthy_name q \<and> \<not> truthy_name t)"
    by (auto simp: names_given_def)
  then show ?thesis
    using assms(1) True resubmit_try_not_found [OF assms(2,3)]
    by (auto simp: resubmit_with_client_def Let_def)
next
  case False
  then show ?thesis
    using assms(1) by (auto simp: resubmit_with_client_def Let_def split: if_splits)
qed

text \<open>
  Claim C4. When the confirmation peek returns and the target's sequence number is not
  among the peeked messages, the call ends in an error and its trace holds no receive,
  neither under peek-lock nor in \<open>receiveAndDelete\<close> mode. Once the client is obtained,
  the error is one thrown by the source itself; with the entity names given, the trace is
  the peek between the opening and the closing of sender and receiver, and the error is
  one of the two not-found errors.
\<close>

theorem resubmit_not_found_no_receive:
  assumes "resubmitMessage rt svc b ns message q t s = (svc', tr, r)"
    and "peekMessages b = Inr peeked"
    and "sequenceNumber message \<notin> sequenceNumber ` set peeked"
  shows "ReceiveMessages \<notin> set tr \<and> ReceiveAndDelete \<notin> set tr
    \<and> (\<exists>e. r = Inl e)
    \<and> (\<forall>client svc''. getClient rt svc ns = Inr (client, svc'') \<longrightarrow>
          (\<exists>text. r = Inl (Error text))
          \<and> (names_given q t s \<longrightarrow>
                tr = [CreateSender (sender_of q t), CreateReceiver (dlq_of q t s), PeekMessages,
                      CloseSender, CloseReceiver]
                \<and> r = Inl (Error (if peeked = [] then ''No messages found in dead-letter queue.''
                                  else ''Target message not found in dead-letter queue.''))))"
proof -
  have quiet: "ReceiveMessages \<notin> set tr \<and> ReceiveAndDelete \<notin> set tr \<and> (\<exists>e. r = Inl e)"
    using resubmitMessage_trace [OF assms(1)]
  proof
    assume "tr = [] \<and> (\<exists>e. r = Inl e)"
    then show ?thesis by simp
  next
    assume "resubmit_with_client rt b message q t s = (tr, r)"
    from not_found_with_client [OF this assms(2,3)] show ?thesis by blast
  qed
  have "(\<exists>text. r = Inl (Error text))
          \<and> (names_given q t s \<longrightarrow>
                tr = [CreateSender (sender_of q t), CreateReceiver (dlq_of q t s), PeekMessages,
                      CloseSender, CloseReceiver]
                \<and> r = Inl (Error (if peeked = [] then ''No messages found in dead-letter queue.''
                                  else ''Target message not found in dead-letter queue.'')))"
    if "getClient rt svc ns = Inr (client, svc'')" for client svc''
    using not_found_with_client [OF resubmitMessage_with_client [OF assms(1) that] assms(2,3)]
    by blast
  then show ?thesis using quiet by blast
qed

subsection \<open>The shape of a trace\<close>

lemma abandon_not_complete: "is_abandon ev \<Longrightarrow> \<not> is_complete ev"
  by (cases ev) simp_all

lemma unique_complete:
  "A @ x # B = xs @ y # ys \<Longrightarrow> is_complete x \<Longrightarrow> is_complete y \<Longrightarrow>
   \<forall>ev\<in>set A. \<not> is_complete ev \<Longrightarrow> \<forall>ev\<in>set B. \<not> is_complete ev \<Longrightarrow>
     xs = A \<and> y = x \<and> ys = B"
proof (induction A arbitrary: xs)
  case Nil
  show ?case
  proof (cases xs)
    case Nil
    then show ?thesis using Nil.prems(1) by simp
  next
    case (Cons z zs)
    then have "y \<in> set B" using Nil.prems(1) by auto
    then show ?thesis using Nil.prems(3,5) by blast
  qed
next
  case (Cons a A)
  show ?case
  proof (cases xs)
    case Nil
    then have "a = y" using Cons.prems(1) by simp
    then show ?thesis using Cons.prems(3,4) by simp
  next
    case (Cons z zs)
    then have eq: "A @ x # B = zs @ y # ys" and z: "z = a" using Cons.prems(1) by simp_all
    have "\<forall>ev\<in>set A. \<not> is_complete ev" using Cons.prems(4) by simp
    from Cons.IH [OF eq Cons.prems(2,3) this Cons.prems(5)]
    show ?thesis using z local.Cons by simp
  qed
qed

lemma resubmit_locked_shape:
  assumes "resubmit_locked rt b m = (tr, r)"
  shows "(\<exists>e. tr = [] \<and> r = Inl e \<and> properties_abort rt m = Some e)
     \<or> (\<exists>e. tr = [SendMessages (locked_outgoing m) (Some e)] \<and> r = Inl e
           \<and> properties_abort rt m = None
           \<and> sendMessages b (locked_outgoing m) = Some e)
     \<or> (\<exists>c. tr = [SendMessages (locked_outgoing m) None, CompleteMessage m c]
            \<and> properties_abort rt m = None
            \<and> sendMessages b (locked_outgoing m) = None \<and> completeMessage b m = c
            \<and> r = (case c of Some e \<Rightarrow> Inl e | None \<Rightarrow> Inr ()))"
proof (cases "properties_abort rt m")
  case (Some e)
  then show ?thesis using assms by (simp add: resubmit_locked_def)
next
  case conv: None
  show ?thesis
  proof (cases "sendMessages b (locked_outgoing m)")
    case None
    then show ?thesis using assms conv
      by (cases "completeMessage b m") (simp_all add: resubmit_locked_def)
  next
    case (Some e)
    then show ?thesis using assms conv by (simp add: resubmit_locked_def)
  qed
qed

lemma resubmit_from_peek_shape:
  assumes "resubmit_from_peek rt b pt tgt dlq = (tr, r)"
  shows "(\<exists>e. tr = [] \<and> r = Inl e \<and> properties_abort rt pt = Some e)
     \<or> (\<exists>e. tr = [SendMessages (peeked_outgoing pt) (Some e)] \<and> r = Inl e
           \<and> properties_abort rt pt = None
           \<and> sendMessages b (peeked_outgoing pt) = Some e)
     \<or> (\<exists>e. tr = [SendMessages (peeked_outgoing pt) None, CloseReceiver,
                  CreateDeleteReceiver dlq, ReceiveAndDelete, CloseDeleteReceiver]
            \<and> properties_abort rt pt = None
            \<and> sendMessages b (peeked_outgoing pt) = None
            \<and> receiveAndDelete b = Inl e \<and> r = Inl e)
     \<or> (\<exists>deleted. tr = [SendMessages (peeked_outgoing pt) None, CloseReceiver,
                  CreateDeleteReceiver dlq, ReceiveAndDelete,
                  Report (deletion_report_of pt tgt deleted), CloseDeleteReceiver]
            \<and> properties_abort rt pt = None
            \<and> sendMessages b (peeked_outgoing pt) = None
            \<and> receiveAndDelete b = Inr deleted \<and> r = Inr ())"
proof (cases "properties_abort rt pt")
  case (Some e)
  then show ?thesis using assms by (simp add: resubmit_from_peek_def)
next
  case conv: None
  show ?thesis
  proof (cases "sendMessages b (peeked_outgoing pt)")
    case None
    then show ?thesis using assms conv
      by (cases "receiveAndDelete b")
        (simp_all add: resubmit_from_peek_def delete_after_resend_def)
  next
    case (Some e)
    then show ?thesis using assms conv by (simp add: resubmit_from_peek_def)
  qed
qed

text \<open>The five ways the try block can end.\<close>

lemma resubmit_try_shape:
  assumes "resubmit_try rt b message dlq = (tr, r)"
  shows "(tr = [PeekMessages] \<and> (\<exists>e. r = Inl e))
    \<or> (tr = [PeekMessages, ReceiveMessages] \<and> (\<exists>e. r = Inl e))
    \<or> (\<exists>batch ltr e. receiveMessages b = Inr batch
          \<and> receive_loop b (sequenceNumber message) batch None = (ltr, Inl e)
          \<and> tr = PeekMessages # ReceiveMessages # ltr \<and> r = Inl e)
    \<or> (\<exists>batch ltr pt tr'. receiveMessages b = Inr batch
          \<and> receive_loop b (sequenceNumber message) batch None = (ltr, Inr None)
          \<and> resubmit_from_peek rt b pt (sequenceNumber message) dlq = (tr', r)
          \<and> tr = PeekMessages # ReceiveMessages # ltr @ tr')
    \<or> (\<exists>batch ltr m tr'. receiveMessages b = Inr batch
          \<and> receive_loop b (sequenceNumber message) batch None = (ltr, Inr (Some m))
          \<and> resubmit_locked rt b m = (tr', r)
          \<and> tr = PeekMessages # ReceiveMessages # ltr @ tr')"
proof (cases "peekMessages b")
  case (Inl e)
  then have "tr = [PeekMessages]" and "r = Inl e"
    using assms by (simp_all add: resubmit_try_def)
  then show ?thesis by blast
next
  case peek: (Inr peeked)
  show ?thesis
  proof (cases "find (\<lambda>m. sequenceNumber m = sequenceNumber message) peeked")
    case None
    then have "tr = [PeekMessages]" and "\<exists>e. r = Inl e"
      using assms peek by (auto simp: resubmit_try_def Let_def split: if_splits)
    then show ?thesis by blast
  next
    case found: (Some pt)
    then have ne: "peeked \<noteq> []" by auto
    show ?thesis
    proof (cases "receiveMessages b")
      case (Inl e)
      then have "tr = [PeekMessages, ReceiveMessages]" and "r = Inl e"
        using assms peek found ne by (simp_all add: resubmit_try_def Let_def)
      then show ?thesis by blast
    next
      case recv: (Inr batch)
      obtain ltr lr where loop: "receive_loop b (sequenceNumber message) batch None = (ltr, lr)"
        by force
      show ?thesis
      proof (cases lr)
        case (Inl e)
        then have "tr = PeekMessages # ReceiveMessages # ltr" and "r = Inl e"
          using assms peek found ne recv loop by (simp_all add: resubmit_try_def Let_def)
        then show ?thesis using recv loop Inl by blast
      next
        case res: (Inr res)
        show ?thesis
        proof (cases res)
          case None
          obtain tr' r' where
            fb: "resubmit_from_peek rt b pt (sequenceNumber message) dlq = (tr', r')" by force
          have "tr = PeekMessages # ReceiveMessages # ltr @ tr'" and "r = r'"
            using assms peek found ne recv loop res None fb
            by (simp_all add: resubmit_try_def Let_def)
          then show ?thesis using recv loop res None fb by blast
        next
          case (Some m)
          obtain tr' r' where lk: "resubmit_locked rt b m = (tr', r')" by force
          have "tr = PeekMessages # ReceiveMessages # ltr @ tr'" and "r = r'"
            using assms peek found ne recv loop res Some lk
            by (simp_all add: resubmit_try_def Let_def)
          then show ?thesis using recv loop res Some lk by blast
        qed
      qed
    qed
  qed
qed

lemma receive_loop_quiet:
  assumes "receive_loop b tgt msgs found = (ltr, lr)"
  shows "SendMessages out c \<notin> set ltr" and "ReceiveAndDelete \<notin> set ltr"
    and "\<forall>ev\<in>set ltr. \<not> is_complete ev"
  using receive_loop_events [OF assms] by (fastforce)+

lemma resubmit_try_complete:
  assumes "resubmit_try rt b message dlq = (tr, r)"
  shows "(\<forall>ev\<in>set tr. \<not> is_complete ev)
    \<or> (\<exists>pre m c. tr = pre @ [SendMessages (locked_outgoing m) None, CompleteMessage m c]
          \<and> (\<forall>ev\<in>set pre. \<not> is_complete ev)
          \<and> sendMessages b (locked_outgoing m) = None)"
  using resubmit_try_shape [OF assms]
proof (elim disjE exE conjE)
  fix batch ltr e
  assume "receive_loop b (sequenceNumber message) batch None = (ltr, Inl e)"
    and "tr = PeekMessages # ReceiveMessages # ltr"
  then show ?thesis using receive_loop_quiet(3) by fastforce
next
  fix batch ltr pt tr'
  assume loop: "receive_loop b (sequenceNumber message) batch None = (ltr, Inr None)"
    and fb: "resubmit_from_peek rt b pt (sequenceNumber message) dlq = (tr', r)"
    and tr: "tr = PeekMessages # ReceiveMessages # ltr @ tr'"
  have "\<forall>ev\<in>set tr'. \<not> is_complete ev"
    using resubmit_from_peek_shape [OF fb] by auto
  then show ?thesis using tr receive_loop_quiet(3) [OF loop] by auto
next
  fix batch ltr m tr'
  assume loop: "receive_loop b (sequenceNumber message) batch None = (ltr, Inr (Some m))"
    and lk: "resubmit_locked rt b m = (tr', r)"
    and tr: "tr = PeekMessages # ReceiveMessages # ltr @ tr'"
  from resubmit_locked_shape [OF lk] show ?thesis
  proof (elim disjE exE conjE)
    assume "tr' = []"
    then show ?thesis using tr receive_loop_quiet(3) [OF loop] by auto
  next
    fix e assume "tr' = [SendMessages (locked_outgoing m) (Some e)]"
    then show ?thesis using tr receive_loop_quiet(3) [OF loop] by auto
  next
    fix c assume t': "tr' = [SendMessages (locked_outgoing m) None, CompleteMessage m c]"
      and ok: "sendMessages b (locked_outgoing m) = None"
    have "tr = (PeekMessages # ReceiveMessages # ltr)
                 @ [SendMessages (locked_outgoing m) None, CompleteMessage m c]"
      using tr t' by simp
    moreover have "\<forall>ev\<in>set (PeekMessages # ReceiveMessages # ltr). \<not> is_complete ev"
      using receive_loop_quiet(3) [OF loop] by simp
    ultimately show ?thesis using ok by blast
  qed
qed auto

lemma resubmit_try_failed_send:
  assumes "resubmit_try rt b message dlq = (tr, r)" and "SendMessages out (Some e) \<in> set tr"
  shows "r = Inl e \<and> (\<forall>ev\<in>set tr. \<not> is_complete ev) \<and> ReceiveAndDelete \<notin> set tr"
  using resubmit_try_shape [OF assms(1)]
proof (elim disjE exE conjE)
  assume "tr = [PeekMessages]"
  then show ?thesis using assms(2) by simp
next
  assume "tr = [PeekMessages, ReceiveMessages]"
  then show ?thesis using assms(2) by simp
next
  fix batch ltr e'
  assume "receive_loop b (sequenceNumber message) batch None = (ltr, Inl e')"
    and "tr = PeekMessages # ReceiveMessages # ltr"
  then show ?thesis using assms(2) receive_loop_quiet(1) by fastforce
next
  fix batch ltr pt tr'
  assume loop: "receive_loop b (sequenceNumber message) batch None = (ltr, Inr None)"
    and fb: "resubmit_from_peek rt b pt (sequenceNumber message) dlq = (tr', r)"
    and tr: "tr = PeekMessages # ReceiveMessages # ltr @ tr'"
  have in': "SendMessages out (Some e) \<in> set tr'"
    using assms(2) tr receive_loop_quiet(1) [OF loop] by auto
  from resubmit_from_peek_shape [OF fb] in'
  have "tr' = [SendMessages (peeked_outgoing pt) (Some e)] \<and> r = Inl e"
    by auto
  then show ?thesis using tr receive_loop_quiet(2,3) [OF loop] by auto
next
  fix batch ltr m tr'
  assume loop: "receive_loop b (sequenceNumber message) batch None = (ltr, Inr (Some m))"
    and lk: "resubmit_locked rt b m = (tr', r)"
    and tr: "tr = PeekMessages # ReceiveMessages # ltr @ tr'"
  have in': "SendMessages out (Some e) \<in> set tr'"
    using assms(2) tr receive_loop_quiet(1) [OF loop] by auto
  from resubmit_locked_shape [OF lk] in'
  have "tr' = [SendMessages (locked_outgoing m) (Some e)] \<and> r = Inl e"
    by auto
  then show ?thesis using tr receive_loop_quiet(2,3) [OF loop] by auto
qed

subsection \<open>Send before complete\<close>

text \<open>How the trace of the whole call is built from the trace of the try block.\<close>

lemma resubmit_with_client_shape:
  assumes "resubmit_with_client rt b message q t s = (tr, r)"
  shows "(tr = [] \<and> (\<exists>e. r = Inl e))
    \<or> (tr = [CreateSender (sender_of q t)] \<and> (\<exists>e. r = Inl e))
    \<or> (\<exists>tr'. names_given q t s \<and> resubmit_try rt b message (dlq_of q t s) = (tr', r)
          \<and> tr = CreateSender (sender_of q t) # CreateReceiver (dlq_of q t s) # tr'
                   @ [CloseSender, CloseReceiver])"
proof (cases "names_given q t s")
  case True
  then have n: "\<not> (\<not> truthy_name q \<and> \<not> truthy_name t)" by (auto simp: names_given_def)
  obtain tr' r' where t: "resubmit_try rt b message (dlq_of q t s) = (tr', r')" by force
  then have "tr = CreateSender (sender_of q t) # CreateReceiver (dlq_of q t s) # tr'
                   @ [CloseSender, CloseReceiver]" and "r = r'"
    using assms True n by (simp_all add: resubmit_with_client_def Let_def)
  then show ?thesis using True t by blast
next
  case False
  then show ?thesis using assms by (auto simp: resubmit_with_client_def split: if_splits)
qed

text \<open>
  Claim C1. In every run, whatever the broker answers: a \<open>completeMessage\<close> call stands
  in the trace only right after the send of the message rebuilt from the same source
  message, and that send has resolved. When a send is rejected, the call ends with that
  error, and the trace holds no \<open>completeMessage\<close> and no receive in \<open>receiveAndDelete\<close>
  mode: the source copy is still in the dead-letter queue.
\<close>

theorem send_before_complete:
  assumes "resubmitMessage rt svc b ns message q t s = (svc', tr, r)"
  shows "(\<forall>xs m c ys. tr = xs @ CompleteMessage m c # ys \<longrightarrow>
            sendMessages b (locked_outgoing m) = None
            \<and> (\<exists>xs'. xs = xs' @ [SendMessages (locked_outgoing m) None]))
    \<and> (\<forall>out e. SendMessages out (Some e) \<in> set tr \<longrightarrow>
            r = Inl e \<and> (\<forall>ev\<in>set tr. \<not> is_complete ev) \<and> ReceiveAndDelete \<notin> set tr)"
proof -
  have "(tr = [] \<and> (\<exists>e. r = Inl e))
    \<or> (tr = [CreateSender (sender_of q t)] \<and> (\<exists>e. r = Inl e))
    \<or> (\<exists>tr'. names_given q t s \<and> resubmit_try rt b message (dlq_of q t s) = (tr', r)
          \<and> tr = CreateSender (sender_of q t) # CreateReceiver (dlq_of q t s) # tr'
                   @ [CloseSender, CloseReceiver])"
    using resubmitMessage_trace [OF assms] resubmit_with_client_shape by blast
  then show ?thesis
  proof (elim disjE exE conjE)
    assume "tr = []"
    then show ?thesis by simp
  next
    assume short: "tr = [CreateSender (sender_of q t)]"
    have "tr \<noteq> xs @ CompleteMessage m c # ys" for xs m c ys
    proof
      assume "tr = xs @ CompleteMessage m c # ys"
      then have "CompleteMessage m c \<in> set tr" by simp
      then show False using short by simp
    qed
    then show ?thesis using short by simp
  next
    fix tr'
    assume body: "resubmit_try rt b message (dlq_of q t s) = (tr', r)"
      and tr: "tr = CreateSender (sender_of q t) # CreateReceiver (dlq_of q t s) # tr'
                   @ [CloseSender, CloseReceiver]"
    have first: "\<forall>xs m c ys. tr = xs @ CompleteMessage m c # ys \<longrightarrow>
            sendMessages b (locked_outgoing m) = None
            \<and> (\<exists>xs'. xs = xs' @ [SendMessages (locked_outgoing m) None])"
    proof (intro allI impI)
      fix xs m c ys
      assume split: "tr = xs @ CompleteMessage m c # ys"
      from resubmit_try_complete [OF body]
      show "sendMessages b (locked_outgoing m) = None
            \<and> (\<exists>xs'. xs = xs' @ [SendMessages (locked_outgoing m) None])"
      proof (elim disjE exE conjE)
        assume "\<forall>ev\<in>set tr'. \<not> is_complete ev"
        then have "\<forall>ev\<in>set tr. \<not> is_complete ev" using tr by simp
        moreover have "CompleteMessage m c \<in> set tr" using split by simp
        ultimately show ?thesis by fastforce
      next
        fix pre m' c'
        assume t': "tr' = pre @ [SendMessages (locked_outgoing m') None, CompleteMessage m' c']"
          and quiet: "\<forall>ev\<in>set pre. \<not> is_complete ev"
          and ok: "sendMessages b (locked_outgoing m') = None"
        let ?A = "CreateSender (sender_of q t) # CreateReceiver (dlq_of q t s) # pre
                    @ [SendMessages (locked_outgoing m') None]"
        have "?A @ CompleteMessage m' c' # [CloseSender, CloseReceiver]
                = xs @ CompleteMessage m c # ys"
          using tr t' split by simp
        moreover have "\<forall>ev\<in>set ?A. \<not> is_complete ev" using quiet by simp
        moreover have "\<forall>ev\<in>set [CloseSender, CloseReceiver]. \<not> is_complete ev" by simp
        ultimately have "xs = ?A \<and> CompleteMessage m c = CompleteMessage m' c'"
          using unique_complete [of ?A "CompleteMessage m' c'" "[CloseSender, CloseReceiver]"
              xs "CompleteMessage m c" ys]
          by simp
        then show ?thesis using ok by auto
      qed
    qed
    have second: "\<forall>out e. SendMessages out (Some e) \<in> set tr \<longrightarrow>
            r = Inl e \<and> (\<forall>ev\<in>set tr. \<not> is_complete ev) \<and> ReceiveAndDelete \<notin> set tr"
    proof (intro allI impI)
      fix out e
      assume "SendMessages out (Some e) \<in> set tr"
      then have "SendMessages out (Some e) \<in> set tr'" using tr by simp
      from resubmit_try_failed_send [OF body this]
      show "r = Inl e \<and> (\<forall>ev\<in>set tr. \<not> is_complete ev) \<and> ReceiveAndDelete \<notin> set tr"
        using tr by simp
    qed
    show ?thesis using first second by blast
  qed
qed

subsection \<open>The example runs\<close>

lemmas conv_defs =
  decode_native_def decode_datetime_offset_def is_datetime_offset_def decode_long_def
  is_long_shaped_def named_prop_def assign_all_def assign_def define_prop_def
  array_index_def digit_value_def valid_time_def

lemmas run_defs =
  resubmitMessage_def resubmit_with_client_def resubmit_try_def resubmit_locked_def
  resubmit_from_peek_def delete_after_resend_def deletion_report_of_def
  names_given_def sender_of_def dlq_of_def truthy_name_def name_of_def
  getClient_def client_args_for_def quiet_runtime_def properties_abort_def conv_defs Let_def

lemmas out_defs =
  locked_outgoing_def peeked_outgoing_def locked_properties_def peeked_properties_def
  converted_properties_def plain_body_def string_or_undefined_def conv_defs

lemma example_client:
  "getClient quiet_runtime new_service ''ns1.servicebus.windows.net''
     = Inr (0, new_service\<lparr>constructed := [FromNamespace ''ns1.servicebus.windows.net''],
                           clients := [''ns1.servicebus.windows.net'' \<mapsto> 0]\<rparr>)"
  by (simp add: getClient_def quiet_runtime_def new_service_def client_args_for_def
      namespace_suffix_def)


lemma healthy_run:
  "snd (resubmitMessage quiet_runtime new_service healthy_broker ''ns1.servicebus.windows.net'' msg42 (Some ''orders'') None None)
   = ([CreateSender ''orders'', CreateReceiver (Queue ''orders''), PeekMessages, ReceiveMessages,
       AbandonMessage msg7 None, AbandonMessage msg8 None,
       SendMessages (locked_outgoing msg42) None, CompleteMessage msg42 None,
       CloseSender, CloseReceiver],
      Inr ())"
  by (simp add: run_defs healthy_broker_def new_service_def msg7_def msg8_def msg42_def)

lemma locked_outgoing_msg42:
  "locked_outgoing msg42 =
     \<lparr>out_body = Some (JStr ''{\"a\":1}''), out_contentType = Some ''application/json'',
      out_correlationId = None, out_subject = None, out_sessionId = None,
      out_messageId = Some ''m1'',
      out_applicationProperties =
        Some [(''tenant'', JStr ''acme''), (''x-resubmitted'', JBool True),
              (''x-original-dead-letter-reason'', JStr ''MaxDeliveryCountExceeded'')]\<rparr>"
  by (simp add: out_defs msg42_def)

lemma peeked_outgoing_msg42:
  "peeked_outgoing msg42 =
     \<lparr>out_body = Some (JStr ''{\"a\":1}''), out_contentType = Some ''application/json'',
      out_correlationId = None, out_subject = None, out_sessionId = None,
      out_messageId = Some ''resubmit-m1'',
      out_applicationProperties =
        Some [(''tenant'', JStr ''acme''), (''x-resubmitted'', JBool True),
              (''x-original-dead-letter-reason'', JStr ''MaxDeliveryCountExceeded''),
              (''x-original-message-id'', JStr ''m1'')]\<rparr>"
  by (simp add: out_defs msg42_def)


lemma lossy_run:
  "snd (resubmitMessage quiet_runtime new_service lossy_broker ''ns1.servicebus.windows.net'' msg42 (Some ''orders'') None None)
   = ([CreateSender ''orders'', CreateReceiver (Queue ''orders''), PeekMessages, ReceiveMessages,
       AbandonMessage msg7 (Some (Rejected ''The lock supplied is invalid.'')),
       CloseSender, CloseReceiver],
      Inl (Rejected ''The lock supplied is invalid.''))"
  by (simp add: run_defs lossy_broker_def healthy_broker_def new_service_def msg7_def msg8_def msg42_def)

subsection \<open>Abandoning the messages that do not match\<close>

lemma find_present:
  "x \<in> f ` set xs \<Longrightarrow> \<exists>y. find (\<lambda>m. f m = x) xs = Some y"
  by (cases "find (\<lambda>m. f m = x) xs") (auto simp: find_None_iff)

text \<open>The try block once the confirmation peek has found the target.\<close>

lemma resubmit_try_found:
  assumes "resubmit_try rt b message dlq = (tr, r)"
    and "peekMessages b = Inr peeked"
    and "find (\<lambda>m. sequenceNumber m = sequenceNumber message) peeked = Some pt"
    and "receiveMessages b = Inr batch"
    and "receive_loop b (sequenceNumber message) batch None = (ltr, lr)"
  shows "(\<exists>e. lr = Inl e \<and> tr = PeekMessages # ReceiveMessages # ltr \<and> r = Inl e)
    \<or> (\<exists>tr'. lr = Inr None
          \<and> resubmit_from_peek rt b pt (sequenceNumber message) dlq = (tr', r)
          \<and> tr = PeekMessages # ReceiveMessages # ltr @ tr')
    \<or> (\<exists>m tr'. lr = Inr (Some m) \<and> resubmit_locked rt b m = (tr', r)
          \<and> tr = PeekMessages # ReceiveMessages # ltr @ tr')"
proof -
  have ne: "peeked \<noteq> []" using assms(3) by auto
  show ?thesis
  proof (cases lr)
    case (Inl e)
    then show ?thesis using assms ne by (simp add: resubmit_try_def Let_def)
  next
    case res: (Inr res)
    show ?thesis
    proof (cases res)
      case None
      obtain tr' r' where
        fb: "resubmit_from_peek rt b pt (sequenceNumber message) dlq = (tr', r')" by force
      have "tr = PeekMessages # ReceiveMessages # ltr @ tr'" and "r = r'"
        using assms ne res None fb by (simp_all add: resubmit_try_def Let_def)
      then show ?thesis using res None fb by blast
    next
      case (Some m)
      obtain tr' r' where lk: "resubmit_locked rt b m = (tr', r')" by force
      have "tr = PeekMessages # ReceiveMessages # ltr @ tr'" and "r = r'"
        using assms ne res Some lk by (simp_all add: resubmit_try_def Let_def)
      then show ?thesis using res Some lk by blast
    qed
  qed
qed

lemma abandoned_abandons:
  "\<forall>ev\<in>set tr. \<not> is_abandon ev \<Longrightarrow> abandoned tr = []"
  by (induction tr rule: abandoned.induct) simp_all

lemma completed_quiet:
  "\<forall>ev\<in>set tr. \<not> is_complete ev \<Longrightarrow> completed tr = []"
  by (induction tr rule: completed.induct) simp_all

lemma abandon_event_in:
  "AbandonMessage m c \<in> set (xs @ ys) \<Longrightarrow> \<forall>ev\<in>set ys. \<not> is_abandon ev \<Longrightarrow>
     AbandonMessage m c \<in> set xs"
  by auto

lemma resubmit_locked_observed:
  assumes "resubmit_locked rt b m = (tr, r)"
  shows "\<forall>ev\<in>set tr. \<not> is_abandon ev" and "abandoned tr = []" and "set (completed tr) \<subseteq> {m}"
  using resubmit_locked_shape [OF assms] by (auto split: option.splits)

lemma resubmit_from_peek_observed:
  assumes "resubmit_from_peek rt b pt tgt dlq = (tr, r)"
  shows "\<forall>ev\<in>set tr. \<not> is_abandon ev" and "abandoned tr = []" and "completed tr = []"
  using resubmit_from_peek_shape [OF assms] by auto

lemma resubmit_with_client_named:
  assumes "resubmit_with_client rt b message q t s = (tr, r)" and "names_given q t s"
  shows "\<exists>tr'. resubmit_try rt b message (dlq_of q t s) = (tr', r)
          \<and> tr = CreateSender (sender_of q t) # CreateReceiver (dlq_of q t s) # tr'
                   @ [CloseSender, CloseReceiver]"
proof -
  have n: "\<not> (\<not> truthy_name q \<and> \<not> truthy_name t)"
    using assms(2) by (auto simp: names_given_def)
  obtain tr' r' where t: "resubmit_try rt b message (dlq_of q t s) = (tr', r')" by force
  then have "tr = CreateSender (sender_of q t) # CreateReceiver (dlq_of q t s) # tr'
                   @ [CloseSender, CloseReceiver]" and "r = r'"
    using assms n by (simp_all add: resubmit_with_client_def Let_def)
  then show ?thesis using t by blast
qed

lemma found_run_decomposition:
  assumes "resubmit_with_client rt b message q t s = (tr, r)"
    and "names_given q t s"
    and "peekMessages b = Inr peeked"
    and "sequenceNumber message \<in> sequenceNumber ` set peeked"
    and "receiveMessages b = Inr batch"
  shows "\<exists>ltr lr post.
      receive_loop b (sequenceNumber message) batch None = (ltr, lr)
      \<and> tr = CreateSender (sender_of q t) # CreateReceiver (dlq_of q t s)
               # PeekMessages # ReceiveMessages # ltr @ post
      \<and> (\<forall>ev\<in>set post. \<not> is_abandon ev)
      \<and> (\<forall>m\<in>set (completed post). lr = Inr (Some m))
      \<and> (\<forall>e. lr = Inl e \<longrightarrow> post = [CloseSender, CloseReceiver] \<and> r = Inl e)"
proof -
  obtain tr' where body: "resubmit_try rt b message (dlq_of q t s) = (tr', r)"
    and tr: "tr = CreateSender (sender_of q t) # CreateReceiver (dlq_of q t s) # tr'
                   @ [CloseSender, CloseReceiver]"
    using resubmit_with_client_named [OF assms(1,2)] by blast
  obtain pt where pt: "find (\<lambda>m. sequenceNumber m = sequenceNumber message) peeked = Some pt"
    using find_present [OF assms(4)] by blast
  obtain ltr lr where loop: "receive_loop b (sequenceNumber message) batch None = (ltr, lr)"
    by force
  from resubmit_try_found [OF body assms(3) pt assms(5) loop] show ?thesis
  proof (elim disjE exE conjE)
    fix e assume lr: "lr = Inl e" and "tr' = PeekMessages # ReceiveMessages # ltr"
      and r: "r = Inl e"
    then have "tr = CreateSender (sender_of q t) # CreateReceiver (dlq_of q t s)
               # PeekMessages # ReceiveMessages # ltr @ [CloseSender, CloseReceiver]"
      using tr by simp
    moreover have "\<forall>ev\<in>set [CloseSender, CloseReceiver]. \<not> is_abandon ev" by simp
    moreover have "\<forall>m\<in>set (completed [CloseSender, CloseReceiver]). lr = Inr (Some m)" by simp
    moreover have "\<forall>e. lr = Inl e \<longrightarrow>
        [CloseSender, CloseReceiver] = [CloseSender, CloseReceiver] \<and> r = Inl e"
      using lr r by simp
    ultimately show ?thesis using loop by blast
  next
    fix tr'' assume lr: "lr = Inr None"
      and fb: "resubmit_from_peek rt b pt (sequenceNumber message) (dlq_of q t s) = (tr'', r)"
      and t': "tr' = PeekMessages # ReceiveMessages # ltr @ tr''"
    have "tr = CreateSender (sender_of q t) # CreateReceiver (dlq_of q t s)
               # PeekMessages # ReceiveMessages # ltr @ (tr'' @ [CloseSender, CloseReceiver])"
      using tr t' by simp
    moreover have "\<forall>ev\<in>set (tr'' @ [CloseSender, CloseReceiver]). \<not> is_abandon ev"
      using resubmit_from_peek_observed(1) [OF fb] by simp
    moreover have "\<forall>m\<in>set (completed (tr'' @ [CloseSender, CloseReceiver])). lr = Inr (Some m)"
      using resubmit_from_peek_observed(3) [OF fb] by (simp add: completed_append)
    moreover have "\<forall>e. lr = Inl e \<longrightarrow>
        tr'' @ [CloseSender, CloseReceiver] = [CloseSender, CloseReceiver] \<and> r = Inl e"
      using lr by simp
    ultimately show ?thesis using loop by blast
  next
    fix m tr'' assume lr: "lr = Inr (Some m)"
      and lk: "resubmit_locked rt b m = (tr'', r)"
      and t': "tr' = PeekMessages # ReceiveMessages # ltr @ tr''"
    have "tr = CreateSender (sender_of q t) # CreateReceiver (dlq_of q t s)
               # PeekMessages # ReceiveMessages # ltr @ (tr'' @ [CloseSender, CloseReceiver])"
      using tr t' by simp
    moreover have "\<forall>ev\<in>set (tr'' @ [CloseSender, CloseReceiver]). \<not> is_abandon ev"
      using resubmit_locked_observed(1) [OF lk] by simp
    moreover have "\<forall>m\<in>set (completed (tr'' @ [CloseSender, CloseReceiver])). lr = Inr (Some m)"
      using resubmit_locked_observed(3) [OF lk] lr by (auto simp: completed_append)
    moreover have "\<forall>e. lr = Inl e \<longrightarrow>
        tr'' @ [CloseSender, CloseReceiver] = [CloseSender, CloseReceiver] \<and> r = Inl e"
      using lr by simp
    ultimately show ?thesis using loop by blast
  qed
qed

text \<open>
  Claim C5, as the code has it. When the client is obtained, the confirmation peek has
  found the target and the receive under peek-lock returns a batch: only messages of the batch whose sequence
  number differs from the target's are abandoned, and only a message of the batch with
  the target's sequence number is completed. If every abandon of a non-matching message
  resolves, the abandoned messages are exactly the non-matching ones, in batch order,
  and every message the run leaves locked has the target's sequence number. If an abandon
  is rejected, the call ends with that error and nothing is sent or completed.
\<close>

theorem abandon_non_matching:
  assumes "resubmitMessage rt svc b ns message q t s = (svc', tr, r)"
    and "getClient rt svc ns = Inr (client, svc'')"
    and "names_given q t s"
    and "peekMessages b = Inr peeked"
    and "sequenceNumber message \<in> sequenceNumber ` set peeked"
    and "receiveMessages b = Inr batch"
  shows "(\<forall>m c. AbandonMessage m c \<in> set tr \<longrightarrow>
            m \<in> set batch \<and> sequenceNumber m \<noteq> sequenceNumber message)
    \<and> (\<forall>m\<in>set (completed tr). m \<in> set batch \<and> sequenceNumber m = sequenceNumber message)
    \<and> ((\<forall>m\<in>set batch. sequenceNumber m \<noteq> sequenceNumber message \<longrightarrow> abandonMessage b m = None)
         \<longrightarrow> abandoned tr = filter (\<lambda>m. sequenceNumber m \<noteq> sequenceNumber message) batch
             \<and> (\<forall>m\<in>set (left_locked batch tr). sequenceNumber m = sequenceNumber message))
    \<and> (\<forall>m e. AbandonMessage m (Some e) \<in> set tr \<longrightarrow>
           r = Inl e \<and> completed tr = [] \<and> (\<forall>out c. SendMessages out c \<notin> set tr))"
proof -
  have run: "resubmit_with_client rt b message q t s = (tr, r)"
    using assms(1,2) by (rule resubmitMessage_with_client)
  obtain ltr lr post where
    loop: "receive_loop b (sequenceNumber message) batch None = (ltr, lr)"
    and tr: "tr = CreateSender (sender_of q t) # CreateReceiver (dlq_of q t s)
               # PeekMessages # ReceiveMessages # ltr @ post"
    and post_a: "\<forall>ev\<in>set post. \<not> is_abandon ev"
    and post_c: "\<forall>m\<in>set (completed post). lr = Inr (Some m)"
    and post_e: "\<forall>e. lr = Inl e \<longrightarrow> post = [CloseSender, CloseReceiver] \<and> r = Inl e"
    using found_run_decomposition [OF run assms(3-6)] by blast
  have one: "\<forall>m c. AbandonMessage m c \<in> set tr \<longrightarrow>
            m \<in> set batch \<and> sequenceNumber m \<noteq> sequenceNumber message"
  proof (intro allI impI)
    fix m c assume "AbandonMessage m c \<in> set tr"
    then have "AbandonMessage m c \<in> set (ltr @ post)" using tr by simp
    then have "AbandonMessage m c \<in> set ltr" using post_a by (rule abandon_event_in)
    from receive_loop_events [OF loop this]
    show "m \<in> set batch \<and> sequenceNumber m \<noteq> sequenceNumber message" by simp
  qed
  have ctr: "completed tr = completed post"
    using tr completed_abandons [OF receive_loop_abandons [OF loop]]
    by (simp add: completed_append)
  have two: "\<forall>m\<in>set (completed tr). m \<in> set batch \<and> sequenceNumber m = sequenceNumber message"
  proof
    fix m assume "m \<in> set (completed tr)"
    then have "lr = Inr (Some m)" using ctr post_c by simp
    then show "m \<in> set batch \<and> sequenceNumber m = sequenceNumber message"
      using receive_loop_found [of b "sequenceNumber message" batch None ltr m] loop by simp
  qed
  have three: "abandoned tr = filter (\<lambda>m. sequenceNumber m \<noteq> sequenceNumber message) batch
      \<and> (\<forall>m\<in>set (left_locked batch tr). sequenceNumber m = sequenceNumber message)"
    if ok: "\<forall>m\<in>set batch. sequenceNumber m \<noteq> sequenceNumber message \<longrightarrow> abandonMessage b m = None"
  proof -
    have "ltr = map (\<lambda>m. AbandonMessage m None)
                  (filter (\<lambda>m. sequenceNumber m \<noteq> sequenceNumber message) batch)"
      using receive_loop_all_abandoned [OF ok loop] by simp
    then have a: "abandoned tr = filter (\<lambda>m. sequenceNumber m \<noteq> sequenceNumber message) batch"
      using tr abandoned_abandons [OF post_a] by (simp add: abandoned_append abandoned_map)
    then have "\<forall>m\<in>set (left_locked batch tr). sequenceNumber m = sequenceNumber message"
      by (auto simp: left_locked_def)
    with a show ?thesis by simp
  qed
  have four: "\<forall>m e. AbandonMessage m (Some e) \<in> set tr \<longrightarrow>
           r = Inl e \<and> completed tr = [] \<and> (\<forall>out c. SendMessages out c \<notin> set tr)"
  proof (intro allI impI)
    fix m e assume "AbandonMessage m (Some e) \<in> set tr"
    then have "AbandonMessage m (Some e) \<in> set (ltr @ post)" using tr by simp
    then have "AbandonMessage m (Some e) \<in> set ltr" using post_a by (rule abandon_event_in)
    then have "lr = Inl e" using receive_loop_rejected [OF loop] by simp
    then have post: "post = [CloseSender, CloseReceiver]" and r: "r = Inl e"
      using post_e by simp_all
    have "completed tr = []" using ctr post by simp
    moreover have "\<forall>out c. SendMessages out c \<notin> set tr"
      using tr post receive_loop_quiet(1) [OF loop] by simp
    ultimately show "r = Inl e \<and> completed tr = [] \<and> (\<forall>out c. SendMessages out c \<notin> set tr)"
      using r by simp
  qed
  show ?thesis using one two three four by blast
qed

subsection \<open>The fallback path\<close>



lemma stale_run:
  "snd (resubmitMessage quiet_runtime new_service stale_broker ''ns1.servicebus.windows.net'' msg42 (Some ''orders'') None None)
   = ([CreateSender ''orders'', CreateReceiver (Queue ''orders''), PeekMessages, ReceiveMessages,
       AbandonMessage msg7 None, AbandonMessage msg8 None,
       SendMessages (peeked_outgoing msg42) None, CloseReceiver,
       CreateDeleteReceiver (Queue ''orders''), ReceiveAndDelete,
       Report (AssumedDeleted 1), CloseDeleteReceiver, CloseSender, CloseReceiver],
      Inr ())"
  by (simp add: run_defs stale_broker_def healthy_broker_def new_service_def
      msg7_def msg8_def msg42_def)



subsection \<open>The claims on the example runs\<close>

lemma unreachable_run:
  "snd (resubmitMessage quiet_runtime new_service unreachable_broker ''ns1.servicebus.windows.net'' msg42 (Some ''orders'') None None)
   = ([CreateSender ''orders'', CreateReceiver (Queue ''orders''), PeekMessages, ReceiveMessages,
       AbandonMessage msg7 None, AbandonMessage msg8 None,
       SendMessages (locked_outgoing msg42) (Some (Rejected ''The operation timed out.'')),
       CloseSender, CloseReceiver],
      Inl (Rejected ''The operation timed out.''))"
  by (simp add: run_defs unreachable_broker_def healthy_broker_def new_service_def
      msg7_def msg8_def msg42_def)

lemma emptied_run:
  "snd (resubmitMessage quiet_runtime new_service emptied_broker ''ns1.servicebus.windows.net'' msg42 (Some ''orders'') None None)
   = ([CreateSender ''orders'', CreateReceiver (Queue ''orders''), PeekMessages,
       CloseSender, CloseReceiver],
      Inl (Error ''Target message not found in dead-letter queue.''))"
  by (simp add: run_defs emptied_broker_def healthy_broker_def new_service_def
      msg7_def msg8_def msg42_def)

theorem send_before_complete_witness:
  "sendMessages healthy_broker (locked_outgoing msg42) = None
   \<and> (\<exists>xs'. [CreateSender ''orders'', CreateReceiver (Queue ''orders''), PeekMessages,
              ReceiveMessages, AbandonMessage msg7 None, AbandonMessage msg8 None,
              SendMessages (locked_outgoing msg42) None]
            = xs' @ [SendMessages (locked_outgoing msg42) None])
   \<and> snd (snd (resubmitMessage quiet_runtime new_service unreachable_broker ''ns1.servicebus.windows.net'' msg42
                 (Some ''orders'') None None))
       = Inl (Rejected ''The operation timed out.'')
   \<and> CompleteMessage msg42 None
       \<notin> set (fst (snd (resubmitMessage quiet_runtime new_service unreachable_broker ''ns1.servicebus.windows.net'' msg42
                          (Some ''orders'') None None)))
   \<and> ReceiveAndDelete
       \<notin> set (fst (snd (resubmitMessage quiet_runtime new_service unreachable_broker ''ns1.servicebus.windows.net'' msg42
                          (Some ''orders'') None None)))"
proof -
  let ?H = "resubmitMessage quiet_runtime new_service healthy_broker ''ns1.servicebus.windows.net'' msg42 (Some ''orders'') None None"
  let ?U = "resubmitMessage quiet_runtime new_service unreachable_broker ''ns1.servicebus.windows.net'' msg42 (Some ''orders'') None None"
  have h: "?H = (fst ?H, fst (snd ?H), snd (snd ?H))" by simp
  have u: "?U = (fst ?U, fst (snd ?U), snd (snd ?U))" by simp
  have split: "fst (snd ?H) =
      [CreateSender ''orders'', CreateReceiver (Queue ''orders''), PeekMessages,
       ReceiveMessages, AbandonMessage msg7 None, AbandonMessage msg8 None,
       SendMessages (locked_outgoing msg42) None]
      @ CompleteMessage msg42 None # [CloseSender, CloseReceiver]"
    by (simp add: healthy_run)
  have failed: "SendMessages (locked_outgoing msg42) (Some (Rejected ''The operation timed out.''))
      \<in> set (fst (snd ?U))"
    by (simp add: unreachable_run)
  have first: "sendMessages healthy_broker (locked_outgoing msg42) = None
      \<and> (\<exists>xs'. [CreateSender ''orders'', CreateReceiver (Queue ''orders''), PeekMessages,
              ReceiveMessages, AbandonMessage msg7 None, AbandonMessage msg8 None,
              SendMessages (locked_outgoing msg42) None]
            = xs' @ [SendMessages (locked_outgoing msg42) None])"
    using send_before_complete [OF h] split by blast
  have second: "snd (snd ?U) = Inl (Rejected ''The operation timed out.'')
      \<and> (\<forall>ev\<in>set (fst (snd ?U)). \<not> is_complete ev) \<and> ReceiveAndDelete \<notin> set (fst (snd ?U))"
    using send_before_complete [OF u] failed by blast
  then have "CompleteMessage msg42 None \<notin> set (fst (snd ?U))" by fastforce
  then show ?thesis using first second by blast
qed

theorem resubmit_not_found_no_receive_witness:
  "fst (snd (resubmitMessage quiet_runtime new_service emptied_broker ''ns1.servicebus.windows.net'' msg42 (Some ''orders'') None None))
     = [CreateSender ''orders'', CreateReceiver (Queue ''orders''), PeekMessages,
        CloseSender, CloseReceiver]
   \<and> snd (snd (resubmitMessage quiet_runtime new_service emptied_broker ''ns1.servicebus.windows.net'' msg42 (Some ''orders'') None None))
     = Inl (Error ''Target message not found in dead-letter queue.'')"
proof -
  let ?R = "resubmitMessage quiet_runtime new_service emptied_broker ''ns1.servicebus.windows.net'' msg42 (Some ''orders'') None None"
  have run: "?R = (fst ?R, fst (snd ?R), snd (snd ?R))" by simp
  have peek: "peekMessages emptied_broker = Inr [msg7, msg8]"
    by (simp add: emptied_broker_def healthy_broker_def)
  have absent: "sequenceNumber msg42 \<notin> sequenceNumber ` set [msg7, msg8]"
    by (simp add: msg7_def msg8_def msg42_def)
  have names: "names_given (Some ''orders'') None None"
    by (simp add: names_given_def truthy_name_def)
  have "sender_of (Some ''orders'') None = ''orders''"
    and "dlq_of (Some ''orders'') None None = Queue ''orders''"
    by (simp_all add: sender_of_def dlq_of_def truthy_name_def name_of_def)
  then show ?thesis
    using resubmit_not_found_no_receive [OF run peek absent] names example_client by simp
qed

theorem abandon_non_matching_witness:
  "abandoned (fst (snd (resubmitMessage quiet_runtime new_service healthy_broker ''ns1.servicebus.windows.net'' msg42
                          (Some ''orders'') None None))) = [msg7, msg8]
   \<and> sequenceNumber msg42 = Some 42
   \<and> set (left_locked [msg7, msg8, msg42]
        (fst (snd (resubmitMessage quiet_runtime new_service healthy_broker ''ns1.servicebus.windows.net'' msg42
                     (Some ''orders'') None None)))) \<subseteq> {m. sequenceNumber m = Some 42}"
proof -
  let ?R = "resubmitMessage quiet_runtime new_service healthy_broker ''ns1.servicebus.windows.net'' msg42 (Some ''orders'') None None"
  have run: "?R = (fst ?R, fst (snd ?R), snd (snd ?R))" by simp
  have names: "names_given (Some ''orders'') None None"
    by (simp add: names_given_def truthy_name_def)
  have peek: "peekMessages healthy_broker = Inr [msg7, msg8, msg42]"
    and recv: "receiveMessages healthy_broker = Inr [msg7, msg8, msg42]"
    by (simp_all add: healthy_broker_def)
  have present: "sequenceNumber msg42 \<in> sequenceNumber ` set [msg7, msg8, msg42]"
    by simp
  have ok: "\<forall>m\<in>set [msg7, msg8, msg42].
      sequenceNumber m \<noteq> sequenceNumber msg42 \<longrightarrow> abandonMessage healthy_broker m = None"
    by (simp add: healthy_broker_def)
  have seq: "sequenceNumber msg42 = Some 42" "sequenceNumber msg7 = Some 7"
    "sequenceNumber msg8 = Some 8"
    by (simp_all add: msg7_def msg8_def msg42_def)
  have "abandoned (fst (snd ?R))
          = filter (\<lambda>m. sequenceNumber m \<noteq> sequenceNumber msg42) [msg7, msg8, msg42]
        \<and> (\<forall>m\<in>set (left_locked [msg7, msg8, msg42] (fst (snd ?R))).
              sequenceNumber m = sequenceNumber msg42)"
    using abandon_non_matching [OF run example_client names peek present recv] ok by blast
  then show ?thesis using seq by auto
qed

text \<open>
  The claim as stated has no non-matching message ever left locked. When the broker
  rejects the abandon of the first message, the loop ends there: nothing is abandoned and
  the second message, which does not match, stays locked.
\<close>

theorem abandon_failure_counterexample:
  "receiveMessages lossy_broker = Inr [msg7, msg8, msg42]
   \<and> sequenceNumber msg8 \<noteq> sequenceNumber msg42
   \<and> abandoned (fst (snd (resubmitMessage quiet_runtime new_service lossy_broker ''ns1.servicebus.windows.net'' msg42
                             (Some ''orders'') None None))) = []
   \<and> msg8 \<in> set (left_locked [msg7, msg8, msg42]
        (fst (snd (resubmitMessage quiet_runtime new_service lossy_broker ''ns1.servicebus.windows.net'' msg42
                     (Some ''orders'') None None))))"
proof -
  have "sequenceNumber msg8 \<noteq> sequenceNumber msg42"
    by (simp add: msg8_def msg42_def)
  moreover have "receiveMessages lossy_broker = Inr [msg7, msg8, msg42]"
    by (simp add: lossy_broker_def healthy_broker_def)
  ultimately show ?thesis
    by (simp add: lossy_run left_locked_def)
qed

text \<open>
  Claim C2 at a failing input. On the lock-held path the message sent for \<open>msg42\<close> carries
  \<open>x-resubmitted\<close> and \<open>x-original-dead-letter-reason\<close> and no \<open>x-original-message-id\<close>;
  the message built from the same data on the fallback path carries all three.
\<close>

theorem lock_path_omits_original_message_id:
  "SendMessages (locked_outgoing msg42) None
     \<in> set (fst (snd (resubmitMessage quiet_runtime new_service healthy_broker ''ns1.servicebus.windows.net'' msg42
                        (Some ''orders'') None None)))
   \<and> messageId msg42 = Some ''m1''
   \<and> out_applicationProperties (locked_outgoing msg42)
       = Some [(''tenant'', JStr ''acme''), (''x-resubmitted'', JBool True),
               (''x-original-dead-letter-reason'', JStr ''MaxDeliveryCountExceeded'')]
   \<and> out_applicationProperties (peeked_outgoing msg42)
       = Some [(''tenant'', JStr ''acme''), (''x-resubmitted'', JBool True),
               (''x-original-dead-letter-reason'', JStr ''MaxDeliveryCountExceeded''),
               (''x-original-message-id'', JStr ''m1'')]"
  by (simp add: healthy_run locked_outgoing_msg42 peeked_outgoing_msg42)
    (simp add: msg42_def)

text \<open>
  When the target carries an invalid date among its application properties, the
  conversion raises before the message is built: nothing is sent on either path, the
  call ends with the \<open>RangeError\<close>, and on the lock-held path the target stays locked.
\<close>

lemma undated_locked_run:
  "snd (resubmitMessage quiet_runtime new_service (undated_broker [msg7, undated])
          ''ns1.servicebus.windows.net'' undated (Some ''orders'') None None)
   = ([CreateSender ''orders'', CreateReceiver (Queue ''orders''), PeekMessages, ReceiveMessages,
       AbandonMessage msg7 None, CloseSender, CloseReceiver],
      Inl RangeError)"
  by (simp add: run_defs undated_broker_def healthy_broker_def new_service_def
      undated_def msg7_def msg42_def)

lemma undated_fallback_run:
  "snd (resubmitMessage quiet_runtime new_service (undated_broker [])
          ''ns1.servicebus.windows.net'' undated (Some ''orders'') None None)
   = ([CreateSender ''orders'', CreateReceiver (Queue ''orders''), PeekMessages, ReceiveMessages,
       CloseSender, CloseReceiver],
      Inl RangeError)"
  by (simp add: run_defs undated_broker_def healthy_broker_def new_service_def
      undated_def msg7_def msg42_def)

text \<open>When the client constructor throws, the call ends before any call on the broker.\<close>

lemma offline_run:
  "resubmitMessage offline_runtime new_service healthy_broker ''ns1.servicebus.windows.net''
     msg42 (Some ''orders'') None None
   = (new_service, [], Inl (Rejected ''Invalid connection string''))"
  by (simp add: resubmitMessage_def getClient_def offline_runtime_def quiet_runtime_def
      new_service_def)

end
